theory Spec2Isabelle
  imports Main "HOL-Library.Sublist"
begin

section \<open>Go strings\<close>

text \<open>
  A Go \<^verbatim>\<open>string\<close> and a \<^verbatim>\<open>[]byte\<close> are both sequences of bytes; the conversions between
  them copy the bytes. Both are modelled as \<^typ>\<open>string\<close>, a list of 8-bit characters.
  The functions of package \<^verbatim>\<open>strings\<close> that the wiki generator calls are written out below
  from the Go standard library, keeping its names.
\<close>

text \<open>\<^verbatim>\<open>len(s) >= len(prefix) && s[:len(prefix)] == prefix\<close>\<close>

definition strings_HasPrefix :: "string \<Rightarrow> string \<Rightarrow> bool" where
  "strings_HasPrefix s pre = (length pre \<le> length s \<and> take (length pre) s = pre)"

text \<open>\<^verbatim>\<open>len(s) >= len(suffix) && s[len(s)-len(suffix):] == suffix\<close>\<close>

definition strings_HasSuffix :: "string \<Rightarrow> string \<Rightarrow> bool" where
  "strings_HasSuffix s suf = (length suf \<le> length s \<and> drop (length s - length suf) s = suf)"

definition strings_TrimPrefix :: "string \<Rightarrow> string \<Rightarrow> string" where
  "strings_TrimPrefix s pre = (if strings_HasPrefix s pre then drop (length pre) s else s)"

definition strings_TrimSuffix :: "string \<Rightarrow> string \<Rightarrow> string" where
  "strings_TrimSuffix s suf =
     (if strings_HasSuffix s suf then take (length s - length suf) s else s)"

text \<open>
  \<^verbatim>\<open>strings.Index\<close> returns the byte offset of the first occurrence of \<^verbatim>\<open>substr\<close>, or
  \<^verbatim>\<open>-1\<close>; here \<^term>\<open>None\<close> stands for \<^verbatim>\<open>-1\<close>.
\<close>

fun strings_Index :: "string \<Rightarrow> string \<Rightarrow> nat option" where
  "strings_Index [] substr = (if substr = [] then Some 0 else None)"
| "strings_Index (c # cs) substr =
     (if strings_HasPrefix (c # cs) substr then Some 0
      else map_option Suc (strings_Index cs substr))"

text \<open>\<^verbatim>\<open>Index(s, substr) >= 0\<close>\<close>

definition strings_Contains :: "string \<Rightarrow> string \<Rightarrow> bool" where
  "strings_Contains s substr = (strings_Index s substr \<noteq> None)"

lemma strings_Index_bound:
  "strings_Index s substr = Some j \<Longrightarrow> j + length substr \<le> length s"
  by (induction s arbitrary: j) (auto simp: strings_HasPrefix_def split: if_splits)

text \<open>
  \<^verbatim>\<open>strings.ReplaceAll(s, old, new)\<close> is \<^verbatim>\<open>Replace(s, old, new, -1)\<close>: it returns \<^verbatim>\<open>s\<close> when
  \<^verbatim>\<open>old == new\<close> or when \<^verbatim>\<open>old\<close> does not occur; otherwise it copies, for each occurrence
  found by \<^verbatim>\<open>Index\<close> from the end of the previous one, the bytes before it and then
  \<^verbatim>\<open>new\<close>, and last the rest of \<^verbatim>\<open>s\<close>. With an empty \<^verbatim>\<open>old\<close> Go inserts \<^verbatim>\<open>new\<close> at every
  rune boundary; the generator never passes an empty pattern, and that branch is left
  out: the model returns \<^verbatim>\<open>s\<close> there and no statement below uses it.
\<close>

function strings_ReplaceAll :: "string \<Rightarrow> string \<Rightarrow> string \<Rightarrow> string" where
  "strings_ReplaceAll s old new =
     (if old = [] \<or> old = new then s
      else case strings_Index s old of
             None \<Rightarrow> s
           | Some j \<Rightarrow> take j s @ new @ strings_ReplaceAll (drop (j + length old) s) old new)"
  by pat_completeness auto
termination
proof (relation "measure (\<lambda>(s, old, new). length s)")
  show "wf (measure (\<lambda>(s, old, new). length s))" by simp
next
  fix s old new :: string and j
  assume "\<not> (old = [] \<or> old = new)" and "strings_Index s old = Some j"
  then have "j + length old \<le> length s" and "0 < length old"
    using strings_Index_bound by auto
  then show "((drop (j + length old) s, old, new), (s, old, new))
      \<in> measure (\<lambda>(s, old, new). length s)"
    by (cases old) simp_all
qed

declare strings_ReplaceAll.simps [simp del]

section \<open>The markdown link rewrite\<close>

text \<open>
  \<^verbatim>\<open>func mdLinkToHTML(md []byte) []byte {
      return []byte(strings.ReplaceAll(string(md), ".md", ".html"))
  }\<close>
\<close>

definition mdLinkToHTML :: "string \<Rightarrow> string" where
  "mdLinkToHTML md = strings_ReplaceAll md ''.md'' ''.html''"

text \<open>
  A left-to-right scan that emits \<^verbatim>\<open>.html\<close> wherever \<^verbatim>\<open>.md\<close> starts and the byte itself
  elsewhere. It is a proof device: \<open>mdLinkToHTML_scan\<close> shows that the library loop
  computes the same bytes, and the properties of the rewrite are proved on the scan.
\<close>

fun md_scan :: "string \<Rightarrow> string" where
  "md_scan [] = []"
| "md_scan (c # cs) =
     (if strings_HasPrefix (c # cs) ''.md'' then ''.html'' @ md_scan (drop 2 cs)
      else c # md_scan cs)"

lemma md_scan_no_occurrence:
  "strings_Index s ''.md'' = None \<Longrightarrow> md_scan s = s"
  by (induction s) (auto split: if_splits)

lemma md_scan_first_occurrence:
  "strings_Index s ''.md'' = Some j \<Longrightarrow>
     md_scan s = take j s @ ''.html'' @ md_scan (drop (j + 3) s)"
  by (induction s arbitrary: j) (auto simp: eval_nat_numeral split: if_splits)

lemma mdLinkToHTML_scan: "mdLinkToHTML s = md_scan s"
  unfolding mdLinkToHTML_def
proof (induction s "''.md''" "''.html''" rule: strings_ReplaceAll.induct)
  case (1 s)
  show ?case
  proof (cases "strings_Index s ''.md''")
    case None
    then show ?thesis
      by (simp add: strings_ReplaceAll.simps [of s] md_scan_no_occurrence)
  next
    case (Some j)
    with 1 have "strings_ReplaceAll (drop (j + 3) s) ''.md'' ''.html'' = md_scan (drop (j + 3) s)"
      by (simp add: eval_nat_numeral)
    with Some show ?thesis
      by (simp add: strings_ReplaceAll.simps [of s] md_scan_first_occurrence eval_nat_numeral)
  qed
qed

text \<open>
  \<^verbatim>\<open>.md\<close> cannot overlap a copy of itself, so an occurrence anywhere splits the scan.
\<close>

lemma md_scan_append:
  "md_scan (a @ ''.md'' @ b) = md_scan a @ ''.html'' @ md_scan b"
proof (induction a rule: md_scan.induct)
  case 1
  show ?case by (simp add: strings_HasPrefix_def)
next
  case (2 c cs)
  show ?case
  proof (cases "strings_HasPrefix (c # cs) ''.md''")
    case True
    then obtain r where "cs = ''md'' @ r"
      by (cases cs; cases "tl cs") (auto simp: strings_HasPrefix_def)
    with True 2 show ?thesis by (simp add: strings_HasPrefix_def)
  next
    case False
    then have "\<not> strings_HasPrefix ((c # cs) @ ''.md'' @ b) ''.md''"
      by (cases cs; cases "tl cs") (auto simp: strings_HasPrefix_def)
    with False 2 show ?thesis by simp
  qed
qed

lemma md_scan_prefix:
  "strings_HasPrefix (c # md_scan cs) ''.md'' \<Longrightarrow> strings_HasPrefix (c # cs) ''.md''"
  by (cases cs; cases "tl cs") (auto simp: strings_HasPrefix_def split: if_splits)

lemma md_scan_clean: "strings_Index (md_scan s) ''.md'' = None"
proof (induction s rule: md_scan.induct)
  case 1
  show ?case by simp
next
  case (2 c cs)
  show ?case
  proof (cases "strings_HasPrefix (c # cs) ''.md''")
    case True
    with 2 show ?thesis by (simp add: strings_HasPrefix_def)
  next
    case False
    with 2 md_scan_prefix [of c cs] show ?thesis by auto
  qed
qed

lemma mdLinkToHTML_sample: "mdLinkToHTML ''see my.md file'' = ''see my.html file''"
  by (simp add: mdLinkToHTML_scan strings_HasPrefix_def)

text \<open>
  C6. The rewrite done before conversion replaces every literal occurrence of \<^verbatim>\<open>.md\<close> by
  \<^verbatim>\<open>.html\<close>, wherever it stands, and changes nothing else: content with no occurrence is
  returned as it is, and at any occurrence of \<^verbatim>\<open>.md\<close> (between any \<open>a\<close> and \<open>b\<close>) the
  result is the rewrite of what precedes, then \<^verbatim>\<open>.html\<close>, then the rewrite of what
  follows. The two facts together fix the result for every input.
\<close>

theorem mdLinkToHTML_every_occurrence:
  "(\<not> strings_Contains md ''.md'' \<longrightarrow> mdLinkToHTML md = md) \<and>
   mdLinkToHTML (a @ ''.md'' @ b) = mdLinkToHTML a @ ''.html'' @ mdLinkToHTML b"
proof
  show "\<not> strings_Contains md ''.md'' \<longrightarrow> mdLinkToHTML md = md"
    by (simp add: mdLinkToHTML_scan md_scan_no_occurrence strings_Contains_def)
next
  show "mdLinkToHTML (a @ ''.md'' @ b) = mdLinkToHTML a @ ''.html'' @ mdLinkToHTML b"
    unfolding mdLinkToHTML_scan by (rule md_scan_append)
qed

theorem mdLinkToHTML_every_occurrence_witness:
  "\<not> strings_Contains ''# Title'' ''.md'' \<and> mdLinkToHTML ''# Title'' = ''# Title'' \<and>
   mdLinkToHTML (''[link](other'' @ ''.md'' @ '') and my.md'') = ''[link](other.html) and my.html''"
  using mdLinkToHTML_every_occurrence [of "''# Title''" "''[link](other''" "'') and my.md''"]
  by (simp add: mdLinkToHTML_scan strings_Contains_def strings_HasPrefix_def)

text \<open>
  C10. The rewrite is idempotent: its output holds no occurrence of \<^verbatim>\<open>.md\<close>, so a second
  pass returns it unchanged.
\<close>

theorem mdLinkToHTML_idempotent:
  "mdLinkToHTML (mdLinkToHTML md) = mdLinkToHTML md \<and>
   \<not> strings_Contains (mdLinkToHTML md) ''.md''"
  by (simp add: mdLinkToHTML_scan md_scan_clean md_scan_no_occurrence strings_Contains_def)

theorem mdLinkToHTML_idempotent_witness:
  "mdLinkToHTML (mdLinkToHTML ''a.md.mdd'') = ''a.html.htmld'' \<and>
   \<not> strings_Contains (mdLinkToHTML ''a.md.mdd'') ''.md''"
  using mdLinkToHTML_idempotent [of "''a.md.mdd''"]
  by (simp add: mdLinkToHTML_scan strings_HasPrefix_def)

section \<open>Frontmatter extraction\<close>

subsection \<open>White space and splitting\<close>

text \<open>
  \<^verbatim>\<open>strings.TrimSpace\<close> removes leading and trailing white space as Unicode defines it
  (\<^verbatim>\<open>unicode.IsSpace\<close>): the runes U+0009 to U+000D, U+0020, U+0085, U+00A0, U+1680,
  U+2000 to U+200A, U+2028, U+2029, U+202F, U+205F and U+3000. On bytes, a rune is
  white space exactly when the bytes are its UTF-8 encoding: an ill-formed sequence
  decodes to U+FFFD, of width one, which is not white space. The list below holds these
  encodings; none is a prefix or a suffix of another.
\<close>

definition space_encodings :: "string list" where
  "space_encodings =
     [[CHR 0x09], [CHR 0x0A], [CHR 0x0B], [CHR 0x0C], [CHR 0x0D], [CHR 0x20],
      [CHR 0xC2, CHR 0x85], [CHR 0xC2, CHR 0xA0],
      [CHR 0xE1, CHR 0x9A, CHR 0x80],
      [CHR 0xE2, CHR 0x80, CHR 0x80], [CHR 0xE2, CHR 0x80, CHR 0x81],
      [CHR 0xE2, CHR 0x80, CHR 0x82], [CHR 0xE2, CHR 0x80, CHR 0x83],
      [CHR 0xE2, CHR 0x80, CHR 0x84], [CHR 0xE2, CHR 0x80, CHR 0x85],
      [CHR 0xE2, CHR 0x80, CHR 0x86], [CHR 0xE2, CHR 0x80, CHR 0x87],
      [CHR 0xE2, CHR 0x80, CHR 0x88], [CHR 0xE2, CHR 0x80, CHR 0x89],
      [CHR 0xE2, CHR 0x80, CHR 0x8A],
      [CHR 0xE2, CHR 0x80, CHR 0xA8], [CHR 0xE2, CHR 0x80, CHR 0xA9],
      [CHR 0xE2, CHR 0x80, CHR 0xAF], [CHR 0xE2, CHR 0x81, CHR 0x9F],
      [CHR 0xE3, CHR 0x80, CHR 0x80]]"

text \<open>
  The width in bytes of the white-space rune a string starts with (ends with), or 0
  when it starts (ends) with none.
\<close>

definition leading_space :: "string \<Rightarrow> nat" where
  "leading_space s =
     (case find (strings_HasPrefix s) space_encodings of None \<Rightarrow> 0 | Some w \<Rightarrow> length w)"

definition trailing_space :: "string \<Rightarrow> nat" where
  "trailing_space s =
     (case find (strings_HasSuffix s) space_encodings of None \<Rightarrow> 0 | Some w \<Rightarrow> length w)"

lemma leading_space_le: "leading_space s \<le> length s"
  by (auto simp: leading_space_def strings_HasPrefix_def split: option.splits
      dest!: find_Some_iff [THEN iffD1])

lemma trailing_space_le: "trailing_space s \<le> length s"
  by (auto simp: trailing_space_def strings_HasSuffix_def split: option.splits
      dest!: find_Some_iff [THEN iffD1])

function TrimLeftSpace :: "string \<Rightarrow> string" where
  "TrimLeftSpace s =
     (if leading_space s = 0 then s else TrimLeftSpace (drop (leading_space s) s))"
  by pat_completeness auto
termination
proof (relation "measure length")
  show "wf (measure length)" by simp
next
  fix s :: string
  assume "leading_space s \<noteq> 0"
  with leading_space_le [of s] show "(drop (leading_space s) s, s) \<in> measure length"
    by simp
qed

function TrimRightSpace :: "string \<Rightarrow> string" where
  "TrimRightSpace s =
     (if trailing_space s = 0 then s
      else TrimRightSpace (take (length s - trailing_space s) s))"
  by pat_completeness auto
termination
proof (relation "measure length")
  show "wf (measure length)" by simp
next
  fix s :: string
  assume "trailing_space s \<noteq> 0"
  with trailing_space_le [of s]
  show "(take (length s - trailing_space s) s, s) \<in> measure length"
    by simp
qed

declare TrimLeftSpace.simps [simp del] TrimRightSpace.simps [simp del]

definition strings_TrimSpace :: "string \<Rightarrow> string" where
  "strings_TrimSpace s = TrimRightSpace (TrimLeftSpace s)"

text \<open>
  \<^verbatim>\<open>strings.SplitN(s, sep, n)\<close> is \<^verbatim>\<open>genSplit(s, sep, 0, n)\<close>: no slices for \<^verbatim>\<open>n == 0\<close>,
  otherwise at most \<^verbatim>\<open>n\<close> slices (never more than \<^verbatim>\<open>len(s) + 1\<close>), cut at the first
  occurrences of \<^verbatim>\<open>sep\<close> found by \<^verbatim>\<open>Index\<close>, the last slice being the unsplit rest. The
  loop below is the one of \<^verbatim>\<open>genSplit\<close>, its counter being the number of cuts still
  allowed. For \<^verbatim>\<open>n < 0\<close> Go allows \<^verbatim>\<open>Count(s, sep)\<close> cuts; the loop stops at the first
  miss, so \<^verbatim>\<open>len(s)\<close> cuts allowed give the same slices. An empty separator (Go then
  splits into UTF-8 sequences) is not passed by the program and is left out.
\<close>

fun genSplit_loop :: "string \<Rightarrow> string \<Rightarrow> nat \<Rightarrow> string list" where
  "genSplit_loop s sep 0 = [s]"
| "genSplit_loop s sep (Suc k) =
     (case strings_Index s sep of
        None \<Rightarrow> [s]
      | Some m \<Rightarrow> take m s # genSplit_loop (drop (m + length sep) s) sep k)"

definition strings_SplitN :: "string \<Rightarrow> string \<Rightarrow> int \<Rightarrow> string list" where
  "strings_SplitN s sep n =
     (if n = 0 then []
      else if n < 0 then genSplit_loop s sep (length s)
      else genSplit_loop s sep (min (nat n) (length s + 1) - 1))"

subsection \<open>The YAML decoder\<close>

text \<open>
  A frontmatter is a Go \<^verbatim>\<open>map[string]string\<close>; the \<^verbatim>\<open>nil\<close> map is \<^term>\<open>None\<close>, which Go
  tells apart from an empty map. \<^verbatim>\<open>yaml.Unmarshal\<close> belongs to the library
  \<^verbatim>\<open>gopkg.in/yaml.v3\<close> and is a parameter of the model: called on the bytes with the
  address of a \<^verbatim>\<open>nil\<close> map, it returns an error or none (the error's message), and
  leaves a value in the map.
\<close>

type_synonym frontmatter = "string \<rightharpoonup> string"

type_synonym yaml_unmarshal = "string \<Rightarrow> string option \<times> frontmatter option"

datatype go_panic = Index_out_of_range nat nat

text \<open>Indexing a slice: Go panics when the index is not below the length.\<close>

definition slice_index :: "'a list \<Rightarrow> nat \<Rightarrow> go_panic + 'a" where
  "slice_index xs i = (if i < length xs then Inr (xs ! i) else Inl (Index_out_of_range i (length xs)))"

subsection \<open>parseFrontmatter\<close>

text \<open>
  The function stands twice in the repository, in \<^verbatim>\<open>functions/api.go\<close> (the variant that
  fetches from the remote repository) and in the handler that reads local files:
  \<^verbatim>\<open>
  func parseFrontmatter(md []byte) map[string]string {
      content := strings.TrimSpace(string(md))
      if !strings.HasPrefix(content, "---") {
          return nil
      }
      parts := strings.SplitN(content, "---", 3)
      if len(parts) < 3 {
          return nil
      }
      yamlPart := strings.TrimSpace(parts[1])
      var fm map[string]string
      if err := yaml.Unmarshal([]byte(yamlPart), &fm); err != nil {
          return nil
      }
      return fm
  }\<close>
  Each copy is translated on its own. The result is \<open>Inl\<close> for a panic and \<open>Inr\<close> for
  the map returned.
\<close>

definition remote_parseFrontmatter :: "yaml_unmarshal \<Rightarrow> string \<Rightarrow> go_panic + frontmatter option" where
  "remote_parseFrontmatter unmarshal md =
     (let content = strings_TrimSpace md in
      if \<not> strings_HasPrefix content ''---'' then Inr None
      else
        let parts = strings_SplitN content ''---'' 3 in
        if length parts < 3 then Inr None
        else
          case slice_index parts 1 of
            Inl p \<Rightarrow> Inl p
          | Inr part \<Rightarrow>
              let yamlPart = strings_TrimSpace part in
              case unmarshal yamlPart of
                (Some err, fm) \<Rightarrow> Inr None
              | (None, fm) \<Rightarrow> Inr fm)"

definition local_parseFrontmatter :: "yaml_unmarshal \<Rightarrow> string \<Rightarrow> go_panic + frontmatter option" where
  "local_parseFrontmatter unmarshal md =
     (let content = strings_TrimSpace md in
      if \<not> strings_HasPrefix content ''---'' then Inr None
      else
        let parts = strings_SplitN content ''---'' 3 in
        if length parts < 3 then Inr None
        else
          case slice_index parts 1 of
            Inl p \<Rightarrow> Inl p
          | Inr part \<Rightarrow>
              let yamlPart = strings_TrimSpace part in
              case unmarshal yamlPart of
                (Some err, fm) \<Rightarrow> Inr None
              | (None, fm) \<Rightarrow> Inr fm)"

section \<open>The frontmatter API handlers\<close>

text \<open>
  A request is read through \<^verbatim>\<open>r.URL.Path\<close> and, in the remote variant,
  \<^verbatim>\<open>r.URL.Query().Get("branch")\<close>, which is empty when the parameter is absent.
\<close>

record request =
  url_path :: string
  query_branch :: string

text \<open>
  What a handler does to its \<^verbatim>\<open>http.ResponseWriter\<close> and to standard output, in order:
  \<^verbatim>\<open>http.Error(w, msg, code)\<close>, \<^verbatim>\<open>w.Header().Set(key, value)\<close>,
  \<^verbatim>\<open>json.NewEncoder(w).Encode(fm)\<close> and \<^verbatim>\<open>fmt.Printf\<close>.
\<close>

datatype effect =
  Http_Error string nat
| Header_Set string string
| Json_Encode frontmatter
| Printf string

subsection \<open>The variant reading local files\<close>

text \<open>
  \<^verbatim>\<open>os.ReadFile\<close> is a parameter: it returns the bytes of the file or an error of the
  operating system.
\<close>

datatype os_error = ErrNotExist | ErrPermission | ErrIsDirectory | ErrIO string

type_synonym read_file = "string \<Rightarrow> os_error + string"

text \<open>
  \<^verbatim>\<open>
  func apiHandler(w http.ResponseWriter, r *http.Request) {
      path := strings.TrimPrefix(r.URL.Path, "/api/")
      if path == "" {
          http.Error(w, "not found", 404)
          return
      }
      mdPath := "content/" + path + ".md"
      data, err := os.ReadFile(mdPath)
      if err != nil {
          http.Error(w, "file not found", 404)
          return
      }
      fm := parseFrontmatter(data)
      if fm == nil {
          fm = map[string]string{}
      }
      w.Header().Set("Content-Type", "application/json")
      json.NewEncoder(w).Encode(fm)
  }\<close>
\<close>

definition local_apiHandler :: "yaml_unmarshal \<Rightarrow> read_file \<Rightarrow> request \<Rightarrow> go_panic + effect list" where
  "local_apiHandler unmarshal readFile r =
     (let path = strings_TrimPrefix (url_path r) ''/api/'' in
      if path = [] then Inr [Http_Error ''not found'' 404]
      else
        let mdPath = ''content/'' @ path @ ''.md'' in
        case readFile mdPath of
          Inl err \<Rightarrow> Inr [Http_Error ''file not found'' 404]
        | Inr data \<Rightarrow>
            (case local_parseFrontmatter unmarshal data of
               Inl p \<Rightarrow> Inl p
             | Inr fm \<Rightarrow>
                 let fm' = (case fm of None \<Rightarrow> Map.empty | Some m \<Rightarrow> m) in
                 Inr [Header_Set ''Content-Type'' ''application/json'', Json_Encode fm']))"

subsection \<open>The variant fetching from the remote repository\<close>

definition REPO_URL :: "string \<Rightarrow> string \<Rightarrow> string" where
  "REPO_URL branch path =
     ''https://raw.githubusercontent.com/starillume/wikiplum/refs/heads/'' @ branch @
     ''/content/'' @ path"

definition USER_AGENT :: string where
  "USER_AGENT =
     ''Mozilla/5.0 (Macintosh; Intel Mac OS X 10.15; rv:109.0) Gecko/20100101 Firefox/111.0''"

definition FILE_NOT_FOUND_ERROR_MESSAGE :: string where
  "FILE_NOT_FOUND_ERROR_MESSAGE = ''file not found''"

text \<open>
  The HTTP client is a parameter. For a URL and a user agent, building the request
  fails, or sending it fails, or a response arrives with a status code and the bytes
  that \<^verbatim>\<open>io.Copy\<close> got from its body. A Go error is kept as its message, which is all
  the handler reads of it.
\<close>

datatype fetch_outcome =
  NewRequest_failed string
| Do_failed string
| Response nat string

type_synonym fetch_client = "string \<Rightarrow> string \<Rightarrow> fetch_outcome"

text \<open>
  \<^verbatim>\<open>
  func fetchWikiPage(ctx context.Context, path string, branch string) ([]byte, error) {
      cli := fetch.NewClient()
      url := fmt.Sprintf(REPO_URL, branch, path)
      r, err := fetch.NewRequest(ctx, http.MethodGet, url, nil)
      if err != nil {
          return nil, err
      }
      r.Header.Set("User-Agent", USER_AGENT)
      res, err := cli.Do(r, nil)
      if err != nil {
          return nil, err
      }
      if res.StatusCode == http.StatusNotFound {
          return nil, errors.New(FILE_NOT_FOUND_ERROR_MESSAGE)
      }
      buf := new(bytes.Buffer)
      io.Copy(buf, res.Body)
      return buf.Bytes(), nil
  }\<close>
\<close>

definition fetchWikiPage :: "fetch_client \<Rightarrow> string \<Rightarrow> string \<Rightarrow> string + string" where
  "fetchWikiPage cli path branch =
     (let url = REPO_URL branch path in
      case cli url USER_AGENT of
        NewRequest_failed err \<Rightarrow> Inl err
      | Do_failed err \<Rightarrow> Inl err
      | Response code body \<Rightarrow>
          if code = 404 then Inl FILE_NOT_FOUND_ERROR_MESSAGE else Inr body)"

text \<open>
  \<^verbatim>\<open>
  func apiHandler(w http.ResponseWriter, r *http.Request) {
      path := strings.TrimPrefix(r.URL.Path, "/api/")
      if path == "" {
          http.Error(w, "not found", 404)
          return
      }
      branch := r.URL.Query().Get("branch")
      if branch == "" {
          branch = "main"
      }
      mdPath := path + ".md"
      data, err := fetchWikiPage(r.Context(), mdPath, branch)
      if err != nil {
          if err.Error() == FILE_NOT_FOUND_ERROR_MESSAGE {
              http.Error(w, FILE_NOT_FOUND_ERROR_MESSAGE, 404)
              return
          }
          fmt.Printf("error: %+v\n", err)
          http.Error(w, "internal error", 500)
          return
      }
      fm := parseFrontmatter(data)
      if fm == nil {
          fm = map[string]string{}
      }
      w.Header().Set("Content-Type", "application/json")
      json.NewEncoder(w).Encode(fm)
  }\<close>
\<close>

definition remote_apiHandler :: "yaml_unmarshal \<Rightarrow> fetch_client \<Rightarrow> request \<Rightarrow> go_panic + effect list" where
  "remote_apiHandler unmarshal cli r =
     (let path = strings_TrimPrefix (url_path r) ''/api/'' in
      if path = [] then Inr [Http_Error ''not found'' 404]
      else
        let branch = (if query_branch r = [] then ''main'' else query_branch r);
            mdPath = path @ ''.md'' in
        case fetchWikiPage cli mdPath branch of
          Inl err \<Rightarrow>
            if err = FILE_NOT_FOUND_ERROR_MESSAGE
            then Inr [Http_Error FILE_NOT_FOUND_ERROR_MESSAGE 404]
            else Inr [Printf (''error: '' @ err @ ''\<newline>''), Http_Error ''internal error'' 500]
        | Inr data \<Rightarrow>
            (case remote_parseFrontmatter unmarshal data of
               Inl p \<Rightarrow> Inl p
             | Inr fm \<Rightarrow>
                 let fm' = (case fm of None \<Rightarrow> Map.empty | Some m \<Rightarrow> m) in
                 Inr [Header_Set ''Content-Type'' ''application/json'', Json_Encode fm']))"

subsection \<open>Sample surroundings\<close>

text \<open>
  Concrete values for the parameters, used where a statement is run on an input. The
  decoder stands for \<^verbatim>\<open>yaml.Unmarshal\<close> on the documents of the examples only: the
  mapping \<^verbatim>\<open>title: Hello\<close>, the ill-formed \<^verbatim>\<open>broken: [unclosed\<close> and the empty document,
  which leaves the map \<^verbatim>\<open>nil\<close>; it reports an error on every other document.
\<close>

definition sample_unmarshal :: yaml_unmarshal where
  "sample_unmarshal y =
     (if y = ''title: Hello'' then (None, Some [''title'' \<mapsto> ''Hello''])
      else if y = [] then (None, None)
      else (Some ''yaml: cannot unmarshal'', None))"

text \<open>
  A content directory with \<^verbatim>\<open>content/hello.md\<close> (with frontmatter), \<^verbatim>\<open>content/plain.md\<close>
  (without), \<^verbatim>\<open>content/secret.md\<close> (which the process may not read) and nothing else.
\<close>

definition sample_readFile :: read_file where
  "sample_readFile p =
     (if p = ''content/hello.md''
      then Inr (''---\<newline>title: Hello\<newline>---\<newline>Body'')
      else if p = ''content/plain.md'' then Inr ''# Plain''
      else if p = ''content/secret.md'' then Inl ErrPermission
      else Inl ErrNotExist)"

text \<open>
  A remote repository whose branch \<^verbatim>\<open>main\<close> has \<^verbatim>\<open>plain.md\<close>; the branch \<^verbatim>\<open>down\<close> stands for
  a connection that cannot be made; every other page is answered with status 404.
\<close>

definition sample_client :: fetch_client where
  "sample_client url agent =
     (if url = REPO_URL ''main'' ''plain.md'' then Response 200 ''# Plain''
      else if url = REPO_URL ''down'' ''plain.md'' then Do_failed ''fetch: network error''
      else Response 404 ''404: Not Found'')"

section \<open>Properties of frontmatter extraction\<close>

lemma remote_local_parseFrontmatter:
  "remote_parseFrontmatter unmarshal md = local_parseFrontmatter unmarshal md"
  by (simp add: remote_parseFrontmatter_def local_parseFrontmatter_def)

text \<open>
  After the leading delimiter, \<^verbatim>\<open>SplitN\<close> yields three segments exactly when a second
  delimiter follows; the first segment is empty.
\<close>

lemma SplitN_after_delimiter:
  assumes "strings_HasPrefix content ''---''"
  shows "strings_SplitN content ''---'' 3 =
     (case strings_Index (drop 3 content) ''---'' of
        None \<Rightarrow> [[], drop 3 content]
      | Some m \<Rightarrow> [[], take m (drop 3 content), drop (m + 3) (drop 3 content)])"
proof -
  from assms have len: "3 \<le> length content" and idx: "strings_Index content ''---'' = Some 0"
    by (cases content; simp add: strings_HasPrefix_def)+
  then have "min (nat 3) (length content + 1) - 1 = Suc (Suc 0)" by simp
  then show ?thesis
    using idx by (simp add: strings_SplitN_def eval_nat_numeral split: option.splits)
qed

lemma local_parseFrontmatter_cases:
  "local_parseFrontmatter unmarshal md =
     (if \<not> strings_HasPrefix (strings_TrimSpace md) ''---'' then Inr None
      else if length (strings_SplitN (strings_TrimSpace md) ''---'' 3) < 3 then Inr None
      else case unmarshal (strings_TrimSpace (strings_SplitN (strings_TrimSpace md) ''---'' 3 ! 1)) of
             (Some err, fm) \<Rightarrow> Inr None
           | (None, fm) \<Rightarrow> Inr fm)"
  by (simp add: local_parseFrontmatter_def Let_def slice_index_def)

lemma hello_page_TrimSpace:
  "strings_TrimSpace (''---\<newline>title: Hello\<newline>---\<newline>Body'')
     = ''---\<newline>title: Hello\<newline>---\<newline>Body''"
  by code_simp

lemma hello_page_SplitN:
  "strings_SplitN (''---\<newline>title: Hello\<newline>---\<newline>Body'') ''---'' 3
     = [[], ''\<newline>title: Hello\<newline>'', ''\<newline>Body'']"
  by code_simp

lemma hello_yaml_TrimSpace:
  "strings_TrimSpace (''\<newline>title: Hello\<newline>'') = ''title: Hello''"
  by code_simp

lemma hello_page_parse:
  "local_parseFrontmatter unmarshal
       (''---\<newline>title: Hello\<newline>---\<newline>Body'')
     = (case unmarshal ''title: Hello'' of (Some err, fm) \<Rightarrow> Inr None | (None, fm) \<Rightarrow> Inr fm)"
  unfolding local_parseFrontmatter_cases hello_page_TrimSpace hello_page_SplitN
  using hello_yaml_TrimSpace by (simp add: strings_HasPrefix_def)

lemma plain_page_parse: "local_parseFrontmatter unmarshal ''# Plain'' = Inr None"
proof -
  have "strings_TrimSpace ''# Plain'' = ''# Plain''" by code_simp
  then show ?thesis
    by (simp add: local_parseFrontmatter_cases strings_HasPrefix_def)
qed

lemma lone_delimiter_parse: "local_parseFrontmatter unmarshal ''--- no end'' = Inr None"
proof -
  have "strings_TrimSpace ''--- no end'' = ''--- no end''" by code_simp
  moreover have "strings_SplitN ''--- no end'' ''---'' 3 = [[], '' no end'']" by code_simp
  ultimately show ?thesis
    by (simp add: local_parseFrontmatter_cases)
qed

lemma broken_page_parse:
  "local_parseFrontmatter sample_unmarshal
       (''---\<newline>broken: [unclosed\<newline>---\<newline>Body'')
     = Inr None"
proof -
  let ?page = "''---\<newline>broken: [unclosed\<newline>---\<newline>Body''"
  have "strings_TrimSpace ?page = ?page" by code_simp
  moreover have "strings_SplitN ?page ''---'' 3
      = [[], ''\<newline>broken: [unclosed\<newline>'', ''\<newline>Body'']"
    by code_simp
  moreover have "strings_TrimSpace (''\<newline>broken: [unclosed\<newline>'') = ''broken: [unclosed''"
    by code_simp
  ultimately show ?thesis
    unfolding local_parseFrontmatter_cases
    by (simp add: sample_unmarshal_def strings_HasPrefix_def)
qed

text \<open>
  C4. Frontmatter extraction never signals an error: on every input it returns, and what
  it returns is the absent map when the trimmed content does not begin with \<^verbatim>\<open>---\<close>, when
  splitting on the delimiter yields fewer than three segments, or when the trimmed middle
  segment fails to parse; in every other case it is the map the decoder left. This holds
  for both copies of the function.
\<close>

theorem parseFrontmatter_never_fails:
  assumes "parse = remote_parseFrontmatter \<or> parse = local_parseFrontmatter"
  shows "(\<exists>fm. parse unmarshal md = Inr fm) \<and>
    (\<not> strings_HasPrefix (strings_TrimSpace md) ''---'' \<longrightarrow> parse unmarshal md = Inr None) \<and>
    (length (strings_SplitN (strings_TrimSpace md) ''---'' 3) < 3 \<longrightarrow>
       parse unmarshal md = Inr None) \<and>
    (\<forall>err fm.
       strings_HasPrefix (strings_TrimSpace md) ''---'' \<and>
       3 \<le> length (strings_SplitN (strings_TrimSpace md) ''---'' 3) \<and>
       unmarshal (strings_TrimSpace (strings_SplitN (strings_TrimSpace md) ''---'' 3 ! 1))
         = (Some err, fm) \<longrightarrow>
       parse unmarshal md = Inr None) \<and>
    (\<forall>fm.
       strings_HasPrefix (strings_TrimSpace md) ''---'' \<and>
       3 \<le> length (strings_SplitN (strings_TrimSpace md) ''---'' 3) \<and>
       unmarshal (strings_TrimSpace (strings_SplitN (strings_TrimSpace md) ''---'' 3 ! 1))
         = (None, fm) \<longrightarrow>
       parse unmarshal md = Inr fm)"
proof -
  from assms have eq: "parse unmarshal md = local_parseFrontmatter unmarshal md"
    by (auto simp: remote_local_parseFrontmatter)
  show ?thesis
    unfolding eq local_parseFrontmatter_cases
    by (auto split: prod.splits option.splits)
qed

theorem parseFrontmatter_never_fails_witness:
  "\<not> strings_HasPrefix (strings_TrimSpace ''# Plain'') ''---'' \<and>
   remote_parseFrontmatter sample_unmarshal ''# Plain'' = Inr None \<and>
   length (strings_SplitN (strings_TrimSpace ''--- no end'') ''---'' 3) < 3 \<and>
   local_parseFrontmatter sample_unmarshal ''--- no end'' = Inr None \<and>
   remote_parseFrontmatter sample_unmarshal
       (''---\<newline>broken: [unclosed\<newline>---\<newline>Body'')
     = Inr None \<and>
   local_parseFrontmatter sample_unmarshal
       (''---\<newline>title: Hello\<newline>---\<newline>Body'')
     = Inr (Some [''title'' \<mapsto> ''Hello''])"
proof -
  have plain: "strings_TrimSpace ''# Plain'' = ''# Plain''" by code_simp
  have lone: "strings_TrimSpace ''--- no end'' = ''--- no end''"
    "strings_SplitN ''--- no end'' ''---'' 3 = [[], '' no end'']" by code_simp+
  have "\<not> strings_HasPrefix (strings_TrimSpace ''# Plain'') ''---''"
    by (simp add: plain strings_HasPrefix_def)
  moreover from this have "remote_parseFrontmatter sample_unmarshal ''# Plain'' = Inr None"
    using parseFrontmatter_never_fails [of remote_parseFrontmatter sample_unmarshal "''# Plain''"]
    by blast
  moreover have "length (strings_SplitN (strings_TrimSpace ''--- no end'') ''---'' 3) < 3"
    by (simp add: lone)
  moreover from this have "local_parseFrontmatter sample_unmarshal ''--- no end'' = Inr None"
    using parseFrontmatter_never_fails [of local_parseFrontmatter sample_unmarshal "''--- no end''"]
    by blast
  ultimately show ?thesis
    by (simp add: remote_local_parseFrontmatter broken_page_parse hello_page_parse
        sample_unmarshal_def)
qed

text \<open>
  C7. On the bytes \<^verbatim>\<open>"---\ntitle: Hello\n---\nBody"\<close> frontmatter extraction hands the
  decoder exactly \<^verbatim>\<open>title: Hello\<close>; the decoder reading that document as the mapping of
  \<^verbatim>\<open>title\<close> to \<^verbatim>\<open>Hello\<close>, the result is exactly that one-entry mapping, in both copies.
\<close>

theorem parseFrontmatter_hello:
  assumes "unmarshal ''title: Hello'' = (None, Some [''title'' \<mapsto> ''Hello''])"
  shows "remote_parseFrontmatter unmarshal
           (''---\<newline>title: Hello\<newline>---\<newline>Body'')
         = Inr (Some [''title'' \<mapsto> ''Hello'']) \<and>
         local_parseFrontmatter unmarshal
           (''---\<newline>title: Hello\<newline>---\<newline>Body'')
         = Inr (Some [''title'' \<mapsto> ''Hello''])"
  using assms by (simp add: remote_local_parseFrontmatter hello_page_parse)

theorem parseFrontmatter_hello_witness:
  "sample_unmarshal ''title: Hello'' = (None, Some [''title'' \<mapsto> ''Hello'']) \<and>
   remote_parseFrontmatter sample_unmarshal
     (''---\<newline>title: Hello\<newline>---\<newline>Body'')
   = Inr (Some [''title'' \<mapsto> ''Hello''])"
  using parseFrontmatter_hello [of sample_unmarshal]
  by (simp add: sample_unmarshal_def)

text \<open>
  C9. The frontmatter extraction of the variant reading local files and that of the
  variant fetching remotely compute the same result on every input, for the same
  decoder.
\<close>

theorem parseFrontmatter_variants_agree:
  "remote_parseFrontmatter unmarshal md = local_parseFrontmatter unmarshal md"
  unfolding remote_parseFrontmatter_def local_parseFrontmatter_def by (rule refl)

theorem parseFrontmatter_variants_agree_witness:
  "remote_parseFrontmatter sample_unmarshal ''--- no end'' = Inr None"
  using parseFrontmatter_variants_agree [of sample_unmarshal "''--- no end''"]
  by (simp add: lone_delimiter_parse)

section \<open>Properties of the handlers\<close>

text \<open>
  The claim C5 as the specification words it: when resolving the resource fails, the
  response is 404 with the message \<^verbatim>\<open>file not found\<close> if the resource was not found, and
  500 with \<^verbatim>\<open>internal error\<close> for any other failure. For the local variant the cause of
  a failure is the error of \<^verbatim>\<open>os.ReadFile\<close>.
\<close>

definition claimed_read_failure_response :: "os_error \<Rightarrow> effect" where
  "claimed_read_failure_response err =
     (if err = ErrNotExist then Http_Error ''file not found'' 404
      else Http_Error ''internal error'' 500)"

text \<open>
  C5, as stated, fails on the variant reading local files: a file that exists and cannot
  be read is answered with 404 and \<^verbatim>\<open>file not found\<close>, not with 500.
\<close>

theorem local_apiHandler_unreadable_counterexample:
  "sample_readFile ''content/secret.md'' = Inl ErrPermission \<and>
   local_apiHandler sample_unmarshal sample_readFile \<lparr>url_path = ''/api/secret'', query_branch = []\<rparr>
     = Inr [Http_Error ''file not found'' 404] \<and>
   claimed_read_failure_response ErrPermission = Http_Error ''internal error'' 500 \<and>
   local_apiHandler sample_unmarshal sample_readFile \<lparr>url_path = ''/api/secret'', query_branch = []\<rparr>
     \<noteq> Inr [claimed_read_failure_response ErrPermission]"
  by (simp add: local_apiHandler_def sample_readFile_def claimed_read_failure_response_def
      strings_TrimPrefix_def strings_HasPrefix_def)

text \<open>
  C5, amended. For a request with a non-empty path: the variant fetching remotely
  responds 404 with \<^verbatim>\<open>file not found\<close> when the repository answers 404 (and when the
  message of another error is that fixed message), and, when building or sending the
  request fails with any other message, logs the error and responds 500 with
  \<^verbatim>\<open>internal error\<close>; the variant reading local files responds 404 with
  \<^verbatim>\<open>file not found\<close> on every read error, whatever its cause, and never responds 500.
\<close>

theorem apiHandler_failure_responses:
  assumes "path = strings_TrimPrefix (url_path r) ''/api/''" and "path \<noteq> []"
    and "branch = (if query_branch r = [] then ''main'' else query_branch r)"
    and "url = REPO_URL branch (path @ ''.md'')"
  shows "(\<forall>body. cli url USER_AGENT = Response 404 body \<longrightarrow>
            remote_apiHandler unmarshal cli r = Inr [Http_Error ''file not found'' 404]) \<and>
         (\<forall>msg. cli url USER_AGENT = NewRequest_failed msg \<or> cli url USER_AGENT = Do_failed msg \<longrightarrow>
            remote_apiHandler unmarshal cli r
              = (if msg = ''file not found'' then Inr [Http_Error ''file not found'' 404]
                 else Inr [Printf (''error: '' @ msg @ ''\<newline>''), Http_Error ''internal error'' 500])) \<and>
         (\<forall>err. readFile (''content/'' @ path @ ''.md'') = Inl err \<longrightarrow>
            local_apiHandler unmarshal readFile r = Inr [Http_Error ''file not found'' 404]) \<and>
         (\<forall>effects msg. local_apiHandler unmarshal readFile r = Inr effects \<longrightarrow>
            Http_Error msg 500 \<notin> set effects)"
proof -
  have "\<forall>body. cli url USER_AGENT = Response 404 body \<longrightarrow>
      remote_apiHandler unmarshal cli r = Inr [Http_Error ''file not found'' 404]"
    using assms
    by (simp add: remote_apiHandler_def fetchWikiPage_def Let_def FILE_NOT_FOUND_ERROR_MESSAGE_def)
  moreover have "\<forall>msg. cli url USER_AGENT = NewRequest_failed msg \<or> cli url USER_AGENT = Do_failed msg \<longrightarrow>
      remote_apiHandler unmarshal cli r
        = (if msg = ''file not found'' then Inr [Http_Error ''file not found'' 404]
           else Inr [Printf (''error: '' @ msg @ ''\<newline>''), Http_Error ''internal error'' 500])"
    using assms
    by (auto simp: remote_apiHandler_def fetchWikiPage_def Let_def FILE_NOT_FOUND_ERROR_MESSAGE_def)
  moreover have "\<forall>err. readFile (''content/'' @ path @ ''.md'') = Inl err \<longrightarrow>
      local_apiHandler unmarshal readFile r = Inr [Http_Error ''file not found'' 404]"
    using assms by (simp add: local_apiHandler_def Let_def)
  moreover have "\<forall>effects msg. local_apiHandler unmarshal readFile r = Inr effects \<longrightarrow>
      Http_Error msg 500 \<notin> set effects"
    by (auto simp: local_apiHandler_def Let_def split: sum.splits if_splits)
  ultimately show ?thesis by blast
qed

theorem apiHandler_failure_responses_witness:
  "remote_apiHandler sample_unmarshal sample_client \<lparr>url_path = ''/api/missing'', query_branch = []\<rparr>
     = Inr [Http_Error ''file not found'' 404] \<and>
   remote_apiHandler sample_unmarshal sample_client \<lparr>url_path = ''/api/plain'', query_branch = ''down''\<rparr>
     = Inr [Printf ''error: fetch: network error\<newline>'', Http_Error ''internal error'' 500] \<and>
   local_apiHandler sample_unmarshal sample_readFile \<lparr>url_path = ''/api/missing'', query_branch = []\<rparr>
     = Inr [Http_Error ''file not found'' 404] \<and>
   Http_Error ''internal error'' 500 \<notin>
     set (projr (local_apiHandler sample_unmarshal sample_readFile
                  \<lparr>url_path = ''/api/secret'', query_branch = []\<rparr>))"
proof -
  have missing: "strings_TrimPrefix ''/api/missing'' ''/api/'' = ''missing''"
    and plain: "strings_TrimPrefix ''/api/plain'' ''/api/'' = ''plain''"
    and secret: "strings_TrimPrefix ''/api/secret'' ''/api/'' = ''secret''"
    by (simp_all add: strings_TrimPrefix_def strings_HasPrefix_def)
  have "remote_apiHandler sample_unmarshal sample_client \<lparr>url_path = ''/api/missing'', query_branch = []\<rparr>
      = Inr [Http_Error ''file not found'' 404]"
    using apiHandler_failure_responses [of "''missing''"
        "\<lparr>url_path = ''/api/missing'', query_branch = []\<rparr>" "''main''"
        "REPO_URL ''main'' ''missing.md''" sample_client sample_unmarshal sample_readFile]
    by (simp add: missing sample_client_def REPO_URL_def)
  moreover have "remote_apiHandler sample_unmarshal sample_client
        \<lparr>url_path = ''/api/plain'', query_branch = ''down''\<rparr>
      = Inr [Printf ''error: fetch: network error\<newline>'', Http_Error ''internal error'' 500]"
    using apiHandler_failure_responses [of "''plain''"
        "\<lparr>url_path = ''/api/plain'', query_branch = ''down''\<rparr>" "''down''"
        "REPO_URL ''down'' ''plain.md''" sample_client sample_unmarshal sample_readFile]
    by (simp add: plain sample_client_def REPO_URL_def)
  moreover have "local_apiHandler sample_unmarshal sample_readFile
        \<lparr>url_path = ''/api/missing'', query_branch = []\<rparr>
      = Inr [Http_Error ''file not found'' 404]"
    using apiHandler_failure_responses [of "''missing''"
        "\<lparr>url_path = ''/api/missing'', query_branch = []\<rparr>" "''main''"
        "REPO_URL ''main'' ''missing.md''" sample_client sample_unmarshal sample_readFile]
    by (simp add: missing sample_readFile_def)
  moreover have "Http_Error ''internal error'' 500 \<notin>
      set (projr (local_apiHandler sample_unmarshal sample_readFile
                   \<lparr>url_path = ''/api/secret'', query_branch = []\<rparr>))"
    by (simp add: local_apiHandler_def secret sample_readFile_def)
  ultimately show ?thesis by blast
qed

text \<open>
  C8. For a request with a non-empty path whose resource is read or fetched, when
  frontmatter extraction yields no frontmatter the handler sets the content type
  \<^verbatim>\<open>application/json\<close> and encodes the empty map, the JSON object \<^verbatim>\<open>{}\<close>; it sends no
  error. This holds for both variants.
\<close>

theorem apiHandler_no_frontmatter:
  assumes "path = strings_TrimPrefix (url_path r) ''/api/''" and "path \<noteq> []"
    and "branch = (if query_branch r = [] then ''main'' else query_branch r)"
  shows "(\<forall>data. readFile (''content/'' @ path @ ''.md'') = Inr data \<and>
            local_parseFrontmatter unmarshal data = Inr None \<longrightarrow>
            local_apiHandler unmarshal readFile r
              = Inr [Header_Set ''Content-Type'' ''application/json'', Json_Encode Map.empty]) \<and>
         (\<forall>data. fetchWikiPage cli (path @ ''.md'') branch = Inr data \<and>
            remote_parseFrontmatter unmarshal data = Inr None \<longrightarrow>
            remote_apiHandler unmarshal cli r
              = Inr [Header_Set ''Content-Type'' ''application/json'', Json_Encode Map.empty])"
  using assms by (simp add: local_apiHandler_def remote_apiHandler_def Let_def)

theorem apiHandler_no_frontmatter_witness:
  "sample_readFile ''content/plain.md'' = Inr ''# Plain'' \<and>
   local_parseFrontmatter sample_unmarshal ''# Plain'' = Inr None \<and>
   local_apiHandler sample_unmarshal sample_readFile \<lparr>url_path = ''/api/plain'', query_branch = []\<rparr>
     = Inr [Header_Set ''Content-Type'' ''application/json'', Json_Encode Map.empty] \<and>
   fetchWikiPage sample_client ''plain.md'' ''main'' = Inr ''# Plain'' \<and>
   remote_parseFrontmatter sample_unmarshal ''# Plain'' = Inr None \<and>
   remote_apiHandler sample_unmarshal sample_client \<lparr>url_path = ''/api/plain'', query_branch = []\<rparr>
     = Inr [Header_Set ''Content-Type'' ''application/json'', Json_Encode Map.empty]"
proof -
  have plain: "strings_TrimPrefix ''/api/plain'' ''/api/'' = ''plain''"
    by (simp add: strings_TrimPrefix_def strings_HasPrefix_def)
  have read: "sample_readFile ''content/plain.md'' = Inr ''# Plain''"
    by (simp add: sample_readFile_def)
  have fetch: "fetchWikiPage sample_client ''plain.md'' ''main'' = Inr ''# Plain''"
    by (simp add: fetchWikiPage_def sample_client_def)
  show ?thesis
    using apiHandler_no_frontmatter [of "''plain''"
        "\<lparr>url_path = ''/api/plain'', query_branch = []\<rparr>" "''main''"
        sample_readFile sample_unmarshal sample_client]
    by (simp add: plain read fetch plain_page_parse remote_local_parseFrontmatter)
qed

section \<open>Go file paths\<close>

text \<open>
  The functions of package \<^verbatim>\<open>path/filepath\<close> that the generator calls, as the standard
  library has them on a system whose separator is \<^verbatim>\<open>/\<close> and whose paths have no volume
  name.
\<close>

fun strings_Join :: "string list \<Rightarrow> string \<Rightarrow> string" where
  "strings_Join [] sep = []"
| "strings_Join [a] sep = a"
| "strings_Join (a # b # elems) sep = a @ sep @ strings_Join (b # elems) sep"

text \<open>
  \<^verbatim>\<open>Clean\<close> reads the path at index \<^verbatim>\<open>r\<close> and writes to a buffer of which the first \<^verbatim>\<open>w\<close>
  bytes count; \<^verbatim>\<open>dotdot\<close> is the index where backtracking over \<^verbatim>\<open>..\<close> must stop. In the
  model the path still to read and the bytes written so far are the arguments of the
  loop. Backtracking is
  \<^verbatim>\<open>out.w--; for out.w > dotdot && !IsPathSeparator(out.index(out.w)) { out.w-- }\<close>,
  and \<open>backtrack out dotdot (w - 1)\<close> is the value of \<^verbatim>\<open>out.w\<close> after it.
\<close>

fun backtrack :: "string \<Rightarrow> nat \<Rightarrow> nat \<Rightarrow> nat" where
  "backtrack out dotdot 0 = 0"
| "backtrack out dotdot (Suc w) =
     (if dotdot < Suc w \<and> out ! Suc w \<noteq> CHR ''/'' then backtrack out dotdot w else Suc w)"

text \<open>
  The cases of the loop, in the order of the \<^verbatim>\<open>switch\<close>: an empty element, a \<^verbatim>\<open>.\<close>
  element, a \<^verbatim>\<open>..\<close> element (backtrack; or, when that is not possible and the path is
  not rooted, append \<^verbatim>\<open>..\<close> and move \<^verbatim>\<open>dotdot\<close>), and a real element, copied after a
  separator where one is needed.
\<close>

function (sequential) clean_loop :: "bool \<Rightarrow> string \<Rightarrow> string \<Rightarrow> nat \<Rightarrow> string" where
  "clean_loop rooted [] out dotdot = out"
| "clean_loop rooted (c # rest) out dotdot =
     (if c = CHR ''/'' then clean_loop rooted rest out dotdot
      else if c = CHR ''.'' \<and> (rest = [] \<or> hd rest = CHR ''/'') then
        clean_loop rooted rest out dotdot
      else if c = CHR ''.'' \<and> hd rest = CHR ''.'' \<and> (tl rest = [] \<or> hd (tl rest) = CHR ''/'') then
        (if dotdot < length out then
           clean_loop rooted (tl rest) (take (backtrack out dotdot (length out - 1)) out) dotdot
         else if \<not> rooted then
           clean_loop rooted (tl rest) ((if out \<noteq> [] then out @ ''/'' else out) @ ''..'')
             (length ((if out \<noteq> [] then out @ ''/'' else out) @ ''..''))
         else clean_loop rooted (tl rest) out dotdot)
      else
        clean_loop rooted (dropWhile (\<lambda>x. x \<noteq> CHR ''/'') rest)
          ((if rooted \<and> length out \<noteq> 1 \<or> \<not> rooted \<and> length out \<noteq> 0 then out @ ''/'' else out)
             @ c # takeWhile (\<lambda>x. x \<noteq> CHR ''/'') rest)
          dotdot)"
  by pat_completeness auto
termination
  by (relation "measure (\<lambda>(rooted, path, out, dotdot). length path)")
    (auto simp: le_imp_less_Suc length_dropWhile_le)

text \<open>
  \<^verbatim>\<open>Clean\<close>: the empty path is \<^verbatim>\<open>.\<close>; a rooted path starts the buffer with the separator
  and \<^verbatim>\<open>r, dotdot = 1, 1\<close>; an empty result is \<^verbatim>\<open>.\<close>.
\<close>

definition filepath_Clean :: "string \<Rightarrow> string" where
  "filepath_Clean path =
     (if path = [] then ''.''
      else
        let out = (if hd path = CHR ''/'' then clean_loop True (tl path) ''/'' 1
                   else clean_loop False path [] 0)
        in if out = [] then ''.'' else out)"

text \<open>
  \<^verbatim>\<open>Join\<close> drops the leading empty elements, joins the rest with the separator and cleans
  the result; with no element left the result is empty.
\<close>

definition filepath_Join :: "string list \<Rightarrow> string" where
  "filepath_Join elem =
     (case dropWhile (\<lambda>e. e = []) elem of
        [] \<Rightarrow> []
      | e # es \<Rightarrow> filepath_Clean (strings_Join (e # es) ''/''))"

text \<open>\<^verbatim>\<open>Dir\<close> cleans the path up to and with its last separator.\<close>

definition filepath_Dir :: "string \<Rightarrow> string" where
  "filepath_Dir path = filepath_Clean (rev (dropWhile (\<lambda>x. x \<noteq> CHR ''/'') (rev path)))"

text \<open>
  \<^verbatim>\<open>Base\<close>: \<^verbatim>\<open>.\<close> for the empty path; otherwise the trailing separators are removed and
  the last element is returned, or the separator when nothing is left.
\<close>

definition filepath_Base :: "string \<Rightarrow> string" where
  "filepath_Base path =
     (if path = [] then ''.''
      else
        let stripped = rev (dropWhile (\<lambda>x. x = CHR ''/'') (rev path));
            last_elem = rev (takeWhile (\<lambda>x. x \<noteq> CHR ''/'') (rev stripped))
        in if last_elem = [] then ''/'' else last_elem)"

text \<open>
  The loop of \<^verbatim>\<open>Rel\<close> moves over the elements of the two cleaned paths while they are
  the same. Its arguments are \<^verbatim>\<open>base[bi:]\<close> and \<^verbatim>\<open>targ[ti:]\<close> at the head of the loop; its
  result is what is left of the base, \<^verbatim>\<open>base[b0:]\<close>, the first element of that, and what
  is left of the target, \<^verbatim>\<open>targ[t0:]\<close>. The base cannot be left through a \<^verbatim>\<open>..\<close> element,
  whether the paths part there or the target ends there.
\<close>

function rel_loop :: "string \<Rightarrow> string \<Rightarrow> string \<times> string \<times> string" where
  "rel_loop base targ =
     (if base = [] \<or> targ = [] then (base, takeWhile (\<lambda>x. x \<noteq> CHR ''/'') base, targ)
      else if takeWhile (\<lambda>x. x \<noteq> CHR ''/'') targ \<noteq> takeWhile (\<lambda>x. x \<noteq> CHR ''/'') base
      then (base, takeWhile (\<lambda>x. x \<noteq> CHR ''/'') base, targ)
      else rel_loop (drop (length (takeWhile (\<lambda>x. x \<noteq> CHR ''/'') base) + 1) base)
                    (drop (length (takeWhile (\<lambda>x. x \<noteq> CHR ''/'') targ) + 1) targ))"
  by pat_completeness auto
termination
  by (relation "measure (\<lambda>(base, targ). length base)") auto

declare rel_loop.simps [simp del]

text \<open>
  \<^verbatim>\<open>Rel(basepath, targpath)\<close>: \<^verbatim>\<open>.\<close> when the cleaned paths are equal; an error when one
  is rooted and the other is not, or when the base would have to be left through a
  \<^verbatim>\<open>..\<close> element; one \<^verbatim>\<open>..\<close> for every element left of the base, then what is left of
  the target. \<open>Inl\<close> carries the error's message; Go returns the empty string with it.
\<close>

definition filepath_Rel :: "string \<Rightarrow> string \<Rightarrow> string + string" where
  "filepath_Rel basepath targpath =
     (let base = filepath_Clean basepath; targ = filepath_Clean targpath in
      if targ = base then Inr ''.''
      else
        let base = (if base = ''.'' then [] else base);
            baseSlashed = (base \<noteq> [] \<and> hd base = CHR ''/'');
            targSlashed = (targ \<noteq> [] \<and> hd targ = CHR ''/'')
        in
        if baseSlashed \<noteq> targSlashed
        then Inl (''Rel: can't make '' @ targpath @ '' relative to '' @ basepath)
        else
          case rel_loop base targ of
            (base_rest, base_elem, targ_rest) \<Rightarrow>
              if base_elem = ''..''
              then Inl (''Rel: can't make '' @ targpath @ '' relative to '' @ basepath)
              else if base_rest \<noteq> [] then
                Inr (''..'' @ concat (replicate (length (filter (\<lambda>x. x = CHR ''/'') base_rest)) ''/..'')
                     @ (if targ_rest \<noteq> [] then ''/'' @ targ_rest else []))
              else Inr targ_rest)"

text \<open>The value an ignored error leaves: \<^verbatim>\<open>rel, _ := filepath.Rel(...)\<close>.\<close>

definition value_of :: "string + string \<Rightarrow> string" where
  "value_of r = (case r of Inl err \<Rightarrow> [] | Inr v \<Rightarrow> v)"

section \<open>The site generator\<close>

definition ContentPath :: string where "ContentPath = ''content''"
definition BuildPath :: string where "BuildPath = ''build''"
definition RootPage :: string where "RootPage = ''index''"

record NavItem =
  Title :: string
  Link :: string

record PageData =
  page_Title :: string
  page_HTML :: string
  page_Sidebar :: "NavItem list"
  page_Rel :: string

text \<open>
  \<^verbatim>\<open>
  func outputPath(mdPath string) string {
      rel, _ := filepath.Rel(ContentPath, mdPath)
      rel = strings.TrimSuffix(rel, ".md")
      return filepath.Join(BuildPath, rel+".html")
  }\<close>
\<close>

definition outputPath :: "string \<Rightarrow> string" where
  "outputPath mdPath =
     (let rel = value_of (filepath_Rel ContentPath mdPath);
          rel = strings_TrimSuffix rel ''.md''
      in filepath_Join [BuildPath, rel @ ''.html''])"

subsection \<open>Walking the content tree\<close>

text \<open>
  \<^verbatim>\<open>filepath.WalkDir(root, fn)\<close> calls \<^verbatim>\<open>fn(path, d, err)\<close> for the root and for every file
  and directory below it, in lexical order, and stops at the first call that returns an
  error. A walk is given by the calls it would make: the path, whether \<^verbatim>\<open>d\<close> is a
  directory, and the error passed, if any. Neither callback returns \<^verbatim>\<open>SkipDir\<close> or
  \<^verbatim>\<open>SkipAll\<close>.
\<close>

record walk_entry =
  entry_path :: string
  entry_is_dir :: bool
  entry_err :: "string option"

subsection \<open>generateSidebar\<close>

text \<open>
  \<^verbatim>\<open>
  func generateSidebar(root string, currentPath string) []NavItem {
      var items []NavItem
      filepath.WalkDir(root, func(path string, d fs.DirEntry, err error) error {
          if err != nil || d.IsDir() || strings.Contains(path, RootPage) || !strings.HasSuffix(path, ".md") {
              return err
          }
          relRoot, _ := filepath.Rel(filepath.Dir(currentPath), root)
          rel, _ := filepath.Rel(root, path)
          var link string
          if relRoot == "." {
              link = rel
          } else {
              link = filepath.Join(relRoot, rel)
          }
          link = strings.TrimSuffix(link, ".md")
          items = append(items, NavItem{
              Title: filepath.Base(link),
              Link:  link + ".html",
          })
          return nil
      })
      return items
  }\<close>
  The callback is \<open>sidebar_visit\<close>: it returns the error it hands back to the walk and
  the items after the call. The error the walk returns is dropped by \<^verbatim>\<open>generateSidebar\<close>.
\<close>

definition sidebar_visit :: "string \<Rightarrow> string \<Rightarrow> walk_entry \<Rightarrow> NavItem list \<Rightarrow> string option \<times> NavItem list" where
  "sidebar_visit root currentPath e items =
     (if entry_err e \<noteq> None \<or> entry_is_dir e \<or> strings_Contains (entry_path e) RootPage
         \<or> \<not> strings_HasSuffix (entry_path e) ''.md''
      then (entry_err e, items)
      else
        let relRoot = value_of (filepath_Rel (filepath_Dir currentPath) root);
            rel = value_of (filepath_Rel root (entry_path e));
            link = (if relRoot = ''.'' then rel else filepath_Join [relRoot, rel]);
            link = strings_TrimSuffix link ''.md''
        in (None, items @ [\<lparr>Title = filepath_Base link, Link = link @ ''.html''\<rparr>]))"

fun sidebar_walk :: "string \<Rightarrow> string \<Rightarrow> walk_entry list \<Rightarrow> NavItem list \<Rightarrow> NavItem list" where
  "sidebar_walk root currentPath [] items = items"
| "sidebar_walk root currentPath (e # es) items =
     (case sidebar_visit root currentPath e items of
        (Some err, items') \<Rightarrow> items'
      | (None, items') \<Rightarrow> sidebar_walk root currentPath es items')"

definition generateSidebar :: "string \<Rightarrow> string \<Rightarrow> walk_entry list \<Rightarrow> NavItem list" where
  "generateSidebar root currentPath entries = sidebar_walk root currentPath entries []"

subsection \<open>buildPages\<close>

text \<open>
  The build reads and writes files, converts markdown with the library \<^verbatim>\<open>goldmark\<close> and
  executes a template. These are parameters, over a state \<open>'w\<close> of the surroundings that
  each operation may change: \<^verbatim>\<open>os.MkdirAll\<close>, \<^verbatim>\<open>os.ReadFile\<close>, \<^verbatim>\<open>goldmark.Convert\<close>, the
  calls that the walk of \<^verbatim>\<open>generateSidebar\<close> makes, \<^verbatim>\<open>os.Create\<close>, and
  \<^verbatim>\<open>tmpl.ExecuteTemplate\<close> writing to the file created.
\<close>

record 'w build_env =
  os_MkdirAll :: "string \<Rightarrow> 'w \<Rightarrow> os_error option \<times> 'w"
  os_ReadFile :: "string \<Rightarrow> 'w \<Rightarrow> os_error + string"
  goldmark_Convert :: "string \<Rightarrow> string + string"
  sidebar_WalkDir :: "string \<Rightarrow> 'w \<Rightarrow> walk_entry list"
  os_Create :: "string \<Rightarrow> 'w \<Rightarrow> os_error option \<times> 'w"
  ExecuteTemplate :: "string \<Rightarrow> PageData \<Rightarrow> 'w \<Rightarrow> string option \<times> 'w"

datatype build_error =
  Walk_error string
| Os_error os_error
| Convert_error string
| Rel_error string
| Template_error string

text \<open>
  \<^verbatim>\<open>
  func renderMarkdown(mdPath string) (string, error) {
      md, err := os.ReadFile(mdPath)
      if err != nil {
          return "", err
      }
      var html strings.Builder
      if err := goldmark.Convert(mdLinkToHTML(md), &html); err != nil {
          return "", err
      }
      return html.String(), nil
  }\<close>
\<close>

definition renderMarkdown :: "'w build_env \<Rightarrow> string \<Rightarrow> 'w \<Rightarrow> build_error + string" where
  "renderMarkdown env mdPath w =
     (case os_ReadFile env mdPath w of
        Inl err \<Rightarrow> Inl (Os_error err)
      | Inr md \<Rightarrow>
          (case goldmark_Convert env (mdLinkToHTML md) of
             Inl err \<Rightarrow> Inl (Convert_error err)
           | Inr html \<Rightarrow> Inr html))"

text \<open>
  \<^verbatim>\<open>
  func writePage(outPath string, tmpl *template.Template, data PageData) error {
      f, err := os.Create(outPath)
      if err != nil {
          return err
      }
      defer f.Close()
      return tmpl.ExecuteTemplate(f, BaseTemplate, data)
  }\<close>
  The result says, besides the error, whether the file was created.
\<close>

definition writePage :: "'w build_env \<Rightarrow> string \<Rightarrow> PageData \<Rightarrow> 'w \<Rightarrow> build_error option \<times> bool \<times> 'w" where
  "writePage env outPath data w =
     (case os_Create env outPath w of
        (Some err, w') \<Rightarrow> (Some (Os_error err), False, w')
      | (None, w') \<Rightarrow>
          (case ExecuteTemplate env outPath data w' of
             (err, w'') \<Rightarrow> (map_option Template_error err, True, w'')))"

text \<open>
  \<^verbatim>\<open>
  func buildPages(tmpl *template.Template) error {
      return filepath.WalkDir(ContentPath, func(path string, d fs.DirEntry, err error) error {
          if err != nil || d.IsDir() || !strings.HasSuffix(path, ".md") {
              return err
          }
          outPath := outputPath(path)
          if err := os.MkdirAll(filepath.Dir(outPath), 0755); err != nil {
              return err
          }
          html, err := renderMarkdown(path)
          if err != nil {
              return err
          }
          rel, err := filepath.Rel(filepath.Dir(path), ContentPath)
          if err != nil {
              return err
          }
          data := PageData{
              Title:   filepath.Base(strings.TrimSuffix(path, ".md")),
              HTML:    template.HTML(html),
              Sidebar: generateSidebar(ContentPath, path),
              Rel:     rel,
          }
          return writePage(outPath, tmpl, data)
      })
  }\<close>
  The callback is \<open>build_visit\<close>. Beside the state it carries the list of the files
  created so far, each with the page written to it.
\<close>

definition build_visit ::
  "'w build_env \<Rightarrow> walk_entry \<Rightarrow> (string \<times> PageData) list \<Rightarrow> 'w
     \<Rightarrow> build_error option \<times> (string \<times> PageData) list \<times> 'w" where
  "build_visit env e created w =
     (if entry_err e \<noteq> None \<or> entry_is_dir e \<or> \<not> strings_HasSuffix (entry_path e) ''.md''
      then (map_option Walk_error (entry_err e), created, w)
      else
        let outPath = outputPath (entry_path e) in
        case os_MkdirAll env (filepath_Dir outPath) w of
          (Some err, w1) \<Rightarrow> (Some (Os_error err), created, w1)
        | (None, w1) \<Rightarrow>
            (case renderMarkdown env (entry_path e) w1 of
               Inl err \<Rightarrow> (Some err, created, w1)
             | Inr html \<Rightarrow>
                 (case filepath_Rel (filepath_Dir (entry_path e)) ContentPath of
                    Inl err \<Rightarrow> (Some (Rel_error err), created, w1)
                  | Inr rel \<Rightarrow>
                      let data = \<lparr>page_Title = filepath_Base (strings_TrimSuffix (entry_path e) ''.md''),
                                  page_HTML = html,
                                  page_Sidebar =
                                    generateSidebar ContentPath (entry_path e)
                                      (sidebar_WalkDir env ContentPath w1),
                                  page_Rel = rel\<rparr>
                      in case writePage env outPath data w1 of
                           (err, was_created, w2) \<Rightarrow>
                             (err, if was_created then created @ [(outPath, data)] else created, w2))))"

fun build_walk ::
  "'w build_env \<Rightarrow> walk_entry list \<Rightarrow> (string \<times> PageData) list \<Rightarrow> 'w
     \<Rightarrow> build_error option \<times> (string \<times> PageData) list \<times> 'w" where
  "build_walk env [] created w = (None, created, w)"
| "build_walk env (e # es) created w =
     (case build_visit env e created w of
        (Some err, created', w') \<Rightarrow> (Some err, created', w')
      | (None, created', w') \<Rightarrow> build_walk env es created' w')"

definition buildPages ::
  "'w build_env \<Rightarrow> walk_entry list \<Rightarrow> 'w \<Rightarrow> build_error option \<times> (string \<times> PageData) list \<times> 'w" where
  "buildPages env entries w = build_walk env entries [] w"

text \<open>A markdown file of the walk: a regular file whose path ends in \<^verbatim>\<open>.md\<close>.\<close>

definition markdown_file :: "walk_entry \<Rightarrow> bool" where
  "markdown_file e = (\<not> entry_is_dir e \<and> strings_HasSuffix (entry_path e) ''.md'')"

text \<open>
  A name that a directory entry can have: not empty, without separator, and neither
  \<^verbatim>\<open>.\<close> nor \<^verbatim>\<open>..\<close>. The walk builds every path from the root and such names.
\<close>

definition file_name :: "string \<Rightarrow> bool" where
  "file_name n = (n \<noteq> [] \<and> CHR ''/'' \<notin> set n \<and> n \<noteq> ''.'' \<and> n \<noteq> ''..'')"

section \<open>Paths of the walk\<close>

text \<open>
  The paths the walk of the content tree passes to the callbacks are the root joined
  with directory-entry names. The library functions are the identity, or strip the root,
  on such paths.
\<close>


lemma takeWhile_element:
  "CHR ''/'' \<notin> set n \<Longrightarrow> tail = [] \<or> hd tail = CHR ''/'' \<Longrightarrow>
     takeWhile (\<lambda>x. x \<noteq> CHR ''/'') (n @ tail) = n"
  by (cases tail; induction n) auto

lemma dropWhile_element:
  "CHR ''/'' \<notin> set n \<Longrightarrow> tail = [] \<or> hd tail = CHR ''/'' \<Longrightarrow>
     dropWhile (\<lambda>x. x \<noteq> CHR ''/'') (n @ tail) = tail"
  by (cases tail; induction n) auto

lemma clean_loop_element:
  assumes "file_name n" and "tail = [] \<or> hd tail = CHR ''/''"
  shows "clean_loop False (n @ tail) out dotdot
     = clean_loop False tail ((if out = [] then [] else out @ ''/'') @ n) dotdot"
proof -
  from assms(1) obtain c r where n: "n = c # r" and c: "c \<noteq> CHR ''/''" and r: "CHR ''/'' \<notin> set r"
    by (cases n) (auto simp: file_name_def)
  have dot: "\<not> (c = CHR ''.'' \<and> (r @ tail = [] \<or> hd (r @ tail) = CHR ''/''))"
    using assms(1) n r by (cases r) (auto simp: file_name_def)
  have dotdot: "\<not> (c = CHR ''.'' \<and> hd (r @ tail) = CHR ''.'' \<and>
      (tl (r @ tail) = [] \<or> hd (tl (r @ tail)) = CHR ''/''))"
    using assms n r by (cases r; cases "tl r") (auto simp: file_name_def)
  have "clean_loop False (c # (r @ tail)) out dotdot
      = clean_loop False (dropWhile (\<lambda>x. x \<noteq> CHR ''/'') (r @ tail))
          ((if False \<and> length out \<noteq> 1 \<or> \<not> False \<and> length out \<noteq> 0 then out @ ''/'' else out)
             @ c # takeWhile (\<lambda>x. x \<noteq> CHR ''/'') (r @ tail)) dotdot"
    by (subst clean_loop.simps(2)) (simp only: c dot dotdot if_False)
  then have "clean_loop False (c # (r @ tail)) out dotdot
      = clean_loop False (dropWhile (\<lambda>x. x \<noteq> CHR ''/'') (r @ tail))
          ((if out = [] then [] else out @ ''/'') @ c # takeWhile (\<lambda>x. x \<noteq> CHR ''/'') (r @ tail)) dotdot"
    by (simp del: clean_loop.simps)
  then show ?thesis
    using r assms(2) by (simp add: n takeWhile_element dropWhile_element)
qed

lemma clean_loop_names:
  "names \<noteq> [] \<Longrightarrow> list_all file_name names \<Longrightarrow>
     clean_loop False (strings_Join names ''/'') out dotdot
       = (if out = [] then [] else out @ ''/'') @ strings_Join names ''/''"
proof (induction names "''/''" arbitrary: out rule: strings_Join.induct)
  case 1
  then show ?case by simp
next
  case (2 a)
  then show ?case
    using clean_loop_element [of a "[]" out dotdot] by simp
next
  case (3 a b elems)
  have "clean_loop False (a @ ''/'' @ strings_Join (b # elems) ''/'') out dotdot
      = clean_loop False (''/'' @ strings_Join (b # elems) ''/'') ((if out = [] then [] else out @ ''/'') @ a) dotdot"
    using 3(3) clean_loop_element [of a "''/'' @ strings_Join (b # elems) ''/''" out dotdot]
    by simp
  also have "\<dots> = clean_loop False (strings_Join (b # elems) ''/'') ((if out = [] then [] else out @ ''/'') @ a) dotdot"
    by simp
  also have "\<dots> = ((if out = [] then [] else out @ ''/'') @ a) @ ''/'' @ strings_Join (b # elems) ''/''"
    using 3 by (auto simp: file_name_def)
  finally show ?case by simp
qed

lemma strings_Join_nonempty:
  "names \<noteq> [] \<Longrightarrow> list_all file_name names \<Longrightarrow>
     strings_Join names ''/'' \<noteq> [] \<and> hd (strings_Join names ''/'') \<noteq> CHR ''/''"
  by (induction names "''/''" rule: strings_Join.induct) (auto simp: file_name_def dest: hd_in_set)

lemma Clean_names:
  assumes "names \<noteq> []" and "list_all file_name names"
  shows "filepath_Clean (strings_Join names ''/'') = strings_Join names ''/''"
  using strings_Join_nonempty [OF assms] clean_loop_names [OF assms, of "[]" 0]
  by (simp add: filepath_Clean_def)

lemma file_name_root: "file_name ContentPath" "file_name BuildPath"
  by (simp_all add: file_name_def ContentPath_def BuildPath_def)

lemma rel_loop_under:
  assumes "file_name root"
  shows "rel_loop root (root @ CHR ''/'' # rest) = ([], [], rest)"
proof -
  from assms have slash: "CHR ''/'' \<notin> set root" and ne: "root \<noteq> []"
    by (simp_all add: file_name_def)
  have t1: "takeWhile (\<lambda>x. x \<noteq> CHR ''/'') (root @ CHR ''/'' # rest) = root"
    using takeWhile_element [OF slash, of "CHR ''/'' # rest"] by simp
  have t2: "takeWhile (\<lambda>x. x \<noteq> CHR ''/'') root = root"
    using takeWhile_element [OF slash, of "[]"] by simp
  have "rel_loop root (root @ CHR ''/'' # rest) = rel_loop [] rest"
    using ne by (subst rel_loop.simps) (simp add: t1 t2)
  then show ?thesis by (simp add: rel_loop.simps [of "[]"])
qed

lemma Rel_under_root:
  assumes "file_name root" and "names \<noteq> []" and "list_all file_name names"
  shows "filepath_Rel root (strings_Join (root # names) ''/'') = Inr (strings_Join names ''/'')"
proof -
  obtain n ns where names: "names = n # ns" using assms(2) by (cases names) auto
  have targ: "strings_Join (root # names) ''/'' = root @ ''/'' @ strings_Join names ''/''"
    by (simp add: names)
  have c1: "filepath_Clean root = root"
    using Clean_names [of "[root]"] assms(1) by simp
  have c2: "filepath_Clean (root @ ''/'' @ strings_Join names ''/'') = root @ ''/'' @ strings_Join names ''/''"
    using Clean_names [of "root # names"] assms by (simp add: names)
  from assms(1) have root: "root \<noteq> []" "root \<noteq> ''.''" "hd root \<noteq> CHR ''/''"
    by (auto simp: file_name_def dest: hd_in_set)
  show ?thesis
    unfolding targ filepath_Rel_def c1 c2
    using root by (simp add: rel_loop_under [OF assms(1)] Let_def)
qed

lemma Join_under_root:
  assumes "file_name root" and "names \<noteq> []" and "list_all file_name names"
  shows "filepath_Join [root, strings_Join names ''/''] = strings_Join (root # names) ''/''"
proof -
  obtain n ns where names: "names = n # ns" using assms(2) by (cases names) auto
  have "filepath_Join [root, strings_Join names ''/''] = filepath_Clean (strings_Join (root # names) ''/'')"
    using assms(1) by (simp add: filepath_Join_def file_name_def names)
  then show ?thesis
    using Clean_names [of "root # names"] assms by simp
qed

lemma strings_Join_snoc:
  "strings_Join (xs @ [y]) sep = (if xs = [] then y else strings_Join xs sep @ sep @ y)"
  by (induction xs sep rule: strings_Join.induct) auto

lemma strings_TrimSuffix_append: "strings_TrimSuffix (x @ suf) suf = x"
  by (simp add: strings_TrimSuffix_def strings_HasSuffix_def)

lemma file_name_with_extension:
  "CHR ''/'' \<notin> set stem \<Longrightarrow> file_name (stem @ ''.md'') \<and> file_name (stem @ ''.html'')"
  by (cases stem; cases "tl stem") (auto simp: file_name_def)

lemma outputPath_mirror:
  assumes "list_all file_name dirs" and "CHR ''/'' \<notin> set stem"
  shows "outputPath (strings_Join (ContentPath # dirs @ [stem @ ''.md'']) ''/'')
     = strings_Join (BuildPath # dirs @ [stem @ ''.html'']) ''/''"
proof -
  let ?src = "dirs @ [stem @ ''.md'']" and ?dst = "dirs @ [stem @ ''.html'']"
  have names: "list_all file_name ?src" "list_all file_name ?dst"
    using assms file_name_with_extension [of stem] by simp_all
  have rel: "filepath_Rel ContentPath (strings_Join (ContentPath # ?src) ''/'')
      = Inr (strings_Join ?src ''/'')"
    using Rel_under_root [OF file_name_root(1) _ names(1)] by simp
  have "strings_TrimSuffix (strings_Join ?src ''/'') ''.md'' @ ''.html'' = strings_Join ?dst ''/''"
    using strings_TrimSuffix_append [of "strings_Join dirs ''/'' @ ''/'' @ stem" "''.md''"]
      strings_TrimSuffix_append [of stem "''.md''"]
    by (simp add: strings_Join_snoc)
  then have "outputPath (strings_Join (ContentPath # ?src) ''/'')
      = filepath_Join [BuildPath, strings_Join ?dst ''/'']"
    unfolding outputPath_def rel by (simp add: value_of_def Let_def del: strings_Join.simps)
  also have "\<dots> = strings_Join (BuildPath # ?dst) ''/''"
    using Join_under_root [OF file_name_root(2) _ names(2)] by simp
  finally show ?thesis by simp
qed

text \<open>
  Names without separator can be read back from their join, so that distinct markdown
  files of the walk have distinct output paths.
\<close>

lemma strings_Join_Cons:
  "strings_Join (x # xs) sep = x @ (if xs = [] then [] else sep @ strings_Join xs sep)"
  by (cases xs) simp_all

lemma strings_Join_inject:
  assumes "list_all (\<lambda>n. CHR ''/'' \<notin> set n) xs" and "list_all (\<lambda>n. CHR ''/'' \<notin> set n) ys"
    and "length xs = length ys \<or> (xs \<noteq> [] \<and> ys \<noteq> [])"
    and "strings_Join xs ''/'' = strings_Join ys ''/''"
  shows "xs = ys"
  using assms
proof (induction xs arbitrary: ys)
  case Nil
  then show ?case by simp
next
  case (Cons x xs)
  then obtain y ys' where ys: "ys = y # ys'" by (cases ys) auto
  let ?tx = "if xs = [] then [] else ''/'' @ strings_Join xs ''/''"
  let ?ty = "if ys' = [] then [] else ''/'' @ strings_Join ys' ''/''"
  from Cons.prems ys have slash: "CHR ''/'' \<notin> set x" "CHR ''/'' \<notin> set y" by simp_all
  from Cons.prems(4) have eq: "x @ ?tx = y @ ?ty"
    unfolding ys strings_Join_Cons .
  have "takeWhile (\<lambda>c. c \<noteq> CHR ''/'') (x @ ?tx) = x"
    by (rule takeWhile_element [OF slash(1)]) simp
  moreover have "takeWhile (\<lambda>c. c \<noteq> CHR ''/'') (y @ ?ty) = y"
    by (rule takeWhile_element [OF slash(2)]) simp
  ultimately have xy: "x = y" using eq by simp
  with eq have tails: "?tx = ?ty" by simp
  then have empty: "xs = [] \<longleftrightarrow> ys' = []" by (auto split: if_splits)
  show ?case
  proof (cases "xs = []")
    case True
    with empty xy ys show ?thesis by simp
  next
    case False
    with empty tails have "strings_Join xs ''/'' = strings_Join ys' ''/''" by simp
    with Cons.IH [of ys'] Cons.prems ys False empty xy show ?thesis by simp
  qed
qed

lemma outputPath_inject:
  assumes "list_all file_name dirs" "CHR ''/'' \<notin> set stem"
    and "list_all file_name dirs'" "CHR ''/'' \<notin> set stem'"
    and "outputPath (strings_Join (ContentPath # dirs @ [stem @ ''.md'']) ''/'')
       = outputPath (strings_Join (ContentPath # dirs' @ [stem' @ ''.md'']) ''/'')"
  shows "dirs = dirs' \<and> stem = stem'"
proof -
  have slash: "list_all (\<lambda>n. CHR ''/'' \<notin> set n) (BuildPath # dirs @ [stem @ ''.html''])"
    "list_all (\<lambda>n. CHR ''/'' \<notin> set n) (BuildPath # dirs' @ [stem' @ ''.html''])"
    using assms(1-4) by (auto simp: list_all_iff file_name_def BuildPath_def)
  from assms(5) have "strings_Join (BuildPath # dirs @ [stem @ ''.html'']) ''/''
      = strings_Join (BuildPath # dirs' @ [stem' @ ''.html'']) ''/''"
    by (simp only: outputPath_mirror [OF assms(1,2)] outputPath_mirror [OF assms(3,4)])
  from strings_Join_inject [OF slash _ this]
  have "BuildPath # dirs @ [stem @ ''.html''] = BuildPath # dirs' @ [stem' @ ''.html'']" by simp
  then show ?thesis by simp
qed

section \<open>Properties of the build\<close>

subsection \<open>A file system\<close>

text \<open>
  A small file system to run the build on: the directories that exist and the regular
  files with their bytes. \<^verbatim>\<open>MkdirAll\<close> makes a directory and its parents and fails when one
  of them is a regular file; \<^verbatim>\<open>ReadFile\<close> returns the bytes of a regular file;
  \<^verbatim>\<open>Create\<close> makes or truncates a regular file, and fails on a path that is a directory
  or whose parent directory does not exist; the template is executed by writing the
  title and the body to the file created.
\<close>

record file_system =
  fs_dirs :: "string list"
  fs_files :: "(string \<times> string) list"

definition regular_files :: "file_system \<Rightarrow> string set" where
  "regular_files w = set (map fst (fs_files w))"

fun dir_chain :: "nat \<Rightarrow> string \<Rightarrow> string list" where
  "dir_chain 0 d = []"
| "dir_chain (Suc n) d =
     (if d = ''.'' \<or> d = ''/'' then [] else dir_chain n (filepath_Dir d) @ [d])"

definition fs_MkdirAll :: "string \<Rightarrow> file_system \<Rightarrow> os_error option \<times> file_system" where
  "fs_MkdirAll d w =
     (let chain = dir_chain (length d) d in
      if list_ex (\<lambda>x. x \<in> set (map fst (fs_files w))) chain then (Some (ErrIO ''not a directory''), w)
      else (None, w\<lparr>fs_dirs := fs_dirs w @ filter (\<lambda>x. x \<notin> set (fs_dirs w)) chain\<rparr>))"

definition fs_ReadFile :: "string \<Rightarrow> file_system \<Rightarrow> os_error + string" where
  "fs_ReadFile p w =
     (case map_of (fs_files w) p of
        Some bytes \<Rightarrow> Inr bytes
      | None \<Rightarrow> if p \<in> set (fs_dirs w) then Inl ErrIsDirectory else Inl ErrNotExist)"

definition fs_write :: "string \<Rightarrow> string \<Rightarrow> (string \<times> string) list \<Rightarrow> (string \<times> string) list" where
  "fs_write p bytes fs = filter (\<lambda>f. fst f \<noteq> p) fs @ [(p, bytes)]"

definition fs_Create :: "string \<Rightarrow> file_system \<Rightarrow> os_error option \<times> file_system" where
  "fs_Create p w =
     (if p \<in> set (fs_dirs w) then (Some ErrIsDirectory, w)
      else if filepath_Dir p \<noteq> ''.'' \<and> filepath_Dir p \<notin> set (fs_dirs w) then (Some ErrNotExist, w)
      else (None, w\<lparr>fs_files := fs_write p [] (fs_files w)\<rparr>))"

definition sample_template :: "PageData \<Rightarrow> string" where
  "sample_template data = ''<h1>'' @ page_Title data @ ''</h1>'' @ page_HTML data"

definition fs_ExecuteTemplate :: "string \<Rightarrow> PageData \<Rightarrow> file_system \<Rightarrow> string option \<times> file_system" where
  "fs_ExecuteTemplate p data w =
     (if p \<in> set (map fst (fs_files w))
      then (None, w\<lparr>fs_files := fs_write p (sample_template data) (fs_files w)\<rparr>)
      else (Some ''write: bad file descriptor'', w))"

definition fs_env :: "walk_entry list \<Rightarrow> file_system build_env" where
  "fs_env tree =
     \<lparr>os_MkdirAll = fs_MkdirAll,
      os_ReadFile = fs_ReadFile,
      goldmark_Convert = (\<lambda>md. Inr (''<p>'' @ md @ ''</p>'')),
      sidebar_WalkDir = (\<lambda>root w. tree),
      os_Create = fs_Create,
      ExecuteTemplate = fs_ExecuteTemplate\<rparr>"

text \<open>A content tree for the examples, as the walk visits it, and its files.\<close>

definition sample_tree :: "walk_entry list" where
  "sample_tree =
     [\<lparr>entry_path = ''content'', entry_is_dir = True, entry_err = None\<rparr>,
      \<lparr>entry_path = ''content/about.md'', entry_is_dir = False, entry_err = None\<rparr>,
      \<lparr>entry_path = ''content/index.md'', entry_is_dir = False, entry_err = None\<rparr>,
      \<lparr>entry_path = ''content/logo.png'', entry_is_dir = False, entry_err = None\<rparr>,
      \<lparr>entry_path = ''content/sub'', entry_is_dir = True, entry_err = None\<rparr>,
      \<lparr>entry_path = ''content/sub/index.md'', entry_is_dir = False, entry_err = None\<rparr>,
      \<lparr>entry_path = ''content/sub/page.md'', entry_is_dir = False, entry_err = None\<rparr>]"

definition sample_fs :: file_system where
  "sample_fs =
     \<lparr>fs_dirs = [''content'', ''content/sub''],
      fs_files = [(''content/about.md'', ''see [home](index.md)''), (''content/index.md'', ''# Home''),
                  (''content/logo.png'', ''PNG''), (''content/sub/index.md'', ''# Sub''),
                  (''content/sub/page.md'', ''# Page'')]\<rparr>"

text \<open>
  A content tree in which the directory \<^verbatim>\<open>x.html\<close> stands beside the file \<^verbatim>\<open>x.md\<close>; the
  walk visits the directory first.
\<close>

definition collision_tree :: "walk_entry list" where
  "collision_tree =
     [\<lparr>entry_path = ''content'', entry_is_dir = True, entry_err = None\<rparr>,
      \<lparr>entry_path = ''content/x.html'', entry_is_dir = True, entry_err = None\<rparr>,
      \<lparr>entry_path = ''content/x.html/y.md'', entry_is_dir = False, entry_err = None\<rparr>,
      \<lparr>entry_path = ''content/x.md'', entry_is_dir = False, entry_err = None\<rparr>]"

definition collision_fs :: file_system where
  "collision_fs =
     \<lparr>fs_dirs = [''content'', ''content/x.html''],
      fs_files = [(''content/x.html/y.md'', ''# Y''), (''content/x.md'', ''# X'')]\<rparr>"

subsection \<open>The files a build creates\<close>

text \<open>
  What the statements below ask of the surroundings, for a set \<open>files_of\<close> of the regular
  files that exist in a state: \<^verbatim>\<open>os.Create\<close> adds the file it is called on when it
  succeeds and changes nothing when it fails; \<^verbatim>\<open>os.MkdirAll\<close> and the execution of the
  template neither add nor remove a regular file.
\<close>

definition tracks_files :: "'w build_env \<Rightarrow> ('w \<Rightarrow> string set) \<Rightarrow> bool" where
  "tracks_files env files_of =
     ((\<forall>p w. files_of (snd (os_Create env p w))
          = (if fst (os_Create env p w) = None then insert p (files_of w) else files_of w)) \<and>
      (\<forall>d w. files_of (snd (os_MkdirAll env d w)) = files_of w) \<and>
      (\<forall>p data w. files_of (snd (ExecuteTemplate env p data w)) = files_of w))"

lemma fs_env_tracks_files: "tracks_files (fs_env tree) regular_files"
  by (auto simp: tracks_files_def fs_env_def regular_files_def fs_Create_def fs_MkdirAll_def
      fs_ExecuteTemplate_def fs_write_def Let_def)

lemma tracks_files_Create:
  assumes "tracks_files env files_of" and "os_Create env p w = (r, w')"
  shows "files_of w' = (if r = None then insert p (files_of w) else files_of w)"
proof -
  from assms(1) have "files_of (snd (os_Create env p w))
      = (if fst (os_Create env p w) = None then insert p (files_of w) else files_of w)"
    unfolding tracks_files_def by blast
  with assms(2) show ?thesis by simp
qed

lemma tracks_files_MkdirAll:
  assumes "tracks_files env files_of" and "os_MkdirAll env d w = (r, w')"
  shows "files_of w' = files_of w"
proof -
  from assms(1) have "files_of (snd (os_MkdirAll env d w)) = files_of w"
    unfolding tracks_files_def by blast
  with assms(2) show ?thesis by simp
qed

lemma tracks_files_ExecuteTemplate:
  assumes "tracks_files env files_of" and "ExecuteTemplate env p data w = (r, w')"
  shows "files_of w' = files_of w"
proof -
  from assms(1) have "files_of (snd (ExecuteTemplate env p data w)) = files_of w"
    unfolding tracks_files_def by blast
  with assms(2) show ?thesis by simp
qed

lemma writePage_files:
  assumes "tracks_files env files_of" and "writePage env p data w = (r, was_created, w')"
  shows "files_of w' = (if was_created then insert p (files_of w) else files_of w) \<and>
         (r = None \<longrightarrow> was_created)"
proof (cases "os_Create env p w")
  case (Pair c w1)
  note create = tracks_files_Create [OF assms(1) Pair]
  show ?thesis
  proof (cases c)
    case (Some err)
    with assms(2) Pair create show ?thesis by (auto simp: writePage_def)
  next
    case None
    obtain x w2 where exec: "ExecuteTemplate env p data w1 = (x, w2)"
      by (cases "ExecuteTemplate env p data w1") auto
    from tracks_files_ExecuteTemplate [OF assms(1) exec] assms(2) Pair None create exec
    show ?thesis by (auto simp: writePage_def)
  qed
qed

lemma build_visit_files:
  assumes "tracks_files env files_of" and "build_visit env e created w = (r, created', w')"
  shows "\<exists>new. created' = created @ new \<and> files_of w' = files_of w \<union> set (map fst new) \<and>
           (r = None \<longrightarrow> map fst new = (if markdown_file e then [outputPath (entry_path e)] else [])) \<and>
           (new = [] \<or> markdown_file e \<and> map fst new = [outputPath (entry_path e)])"
proof (cases "markdown_file e \<and> entry_err e = None")
  case False
  with assms(2) show ?thesis
    by (auto simp: build_visit_def markdown_file_def)
next
  case True
  let ?out = "outputPath (entry_path e)"
  obtain m w1 where mk: "os_MkdirAll env (filepath_Dir ?out) w = (m, w1)"
    by (cases "os_MkdirAll env (filepath_Dir ?out) w") auto
  note w1 = tracks_files_MkdirAll [OF assms(1) mk]
  show ?thesis
  proof (cases "m = None \<and> \<not> isl (renderMarkdown env (entry_path e) w1) \<and>
      \<not> isl (filepath_Rel (filepath_Dir (entry_path e)) ContentPath)")
    case False
    with assms(2) True mk w1 show ?thesis
      by (auto simp: build_visit_def markdown_file_def Let_def split: option.splits sum.splits)
  next
    case ok: True
    then obtain html rel where html: "renderMarkdown env (entry_path e) w1 = Inr html"
      and rel: "filepath_Rel (filepath_Dir (entry_path e)) ContentPath = Inr rel"
      by (auto simp: isl_def) (metis sum.exhaust)
    let ?data = "\<lparr>page_Title = filepath_Base (strings_TrimSuffix (entry_path e) ''.md''),
        page_HTML = html,
        page_Sidebar = generateSidebar ContentPath (entry_path e) (sidebar_WalkDir env ContentPath w1),
        page_Rel = rel\<rparr>"
    obtain x c w2 where wp: "writePage env ?out ?data w1 = (x, c, w2)"
      by (cases "writePage env ?out ?data w1") auto
    note page = writePage_files [OF assms(1) wp]
    from assms(2) True ok mk html rel wp
    have res: "r = x" "created' = (if c then created @ [(?out, ?data)] else created)" "w' = w2"
      by (auto simp: build_visit_def markdown_file_def Let_def)
    show ?thesis
    proof (cases c)
      case True
      with res page w1 \<open>markdown_file e \<and> entry_err e = None\<close> show ?thesis
        by (intro exI [of _ "[(?out, ?data)]"]) auto
    next
      case False
      with res page w1 show ?thesis by (intro exI [of _ "[]"]) auto
    qed
  qed
qed

lemma build_walk_files:
  assumes "tracks_files env files_of"
  shows "build_walk env es created w = (r, created', w') \<Longrightarrow>
     \<exists>new k. created' = created @ new \<and> files_of w' = files_of w \<union> set (map fst new) \<and>
        map fst new = take k (map (\<lambda>e. outputPath (entry_path e)) (filter markdown_file es)) \<and>
        (r = None \<longrightarrow> length (filter markdown_file es) \<le> k)"
proof (induction es arbitrary: created w)
  case Nil
  then show ?case by simp
next
  case (Cons e es)
  obtain r1 c1 w1 where visit: "build_visit env e created w = (r1, c1, w1)"
    by (cases "build_visit env e created w") auto
  from build_visit_files [OF assms visit] obtain n1 where
    "c1 = created @ n1 \<and> files_of w1 = files_of w \<union> set (map fst n1) \<and>
      (r1 = None \<longrightarrow> map fst n1 = (if markdown_file e then [outputPath (entry_path e)] else [])) \<and>
      (n1 = [] \<or> markdown_file e \<and> map fst n1 = [outputPath (entry_path e)])" ..
  then have n1: "c1 = created @ n1" "files_of w1 = files_of w \<union> set (map fst n1)"
      "r1 = None \<longrightarrow> map fst n1 = (if markdown_file e then [outputPath (entry_path e)] else [])"
      "n1 = [] \<or> markdown_file e \<and> map fst n1 = [outputPath (entry_path e)]"
    by simp_all
  show ?case
  proof (cases r1)
    case None
    with Cons.prems visit have "build_walk env es c1 w1 = (r, created', w')" by simp
    from Cons.IH [OF this] obtain n2 k where
      "created' = c1 @ n2 \<and> files_of w' = files_of w1 \<union> set (map fst n2) \<and>
        map fst n2 = take k (map (\<lambda>e. outputPath (entry_path e)) (filter markdown_file es)) \<and>
        (r = None \<longrightarrow> length (filter markdown_file es) \<le> k)"
      by (elim exE)
    then have n2: "created' = c1 @ n2" "files_of w' = files_of w1 \<union> set (map fst n2)"
        "map fst n2 = take k (map (\<lambda>e. outputPath (entry_path e)) (filter markdown_file es))"
        "r = None \<longrightarrow> length (filter markdown_file es) \<le> k"
      by blast+
    show ?thesis
    proof (cases "markdown_file e")
      case True
      with n1 n2 None show ?thesis
        by (intro exI [of _ "n1 @ n2"] exI [of _ "Suc k"]) auto
    next
      case False
      with n1 n2 None show ?thesis
        by (intro exI [of _ "n1 @ n2"] exI [of _ k]) auto
    qed
  next
    case (Some err)
    with Cons.prems visit have res: "r = Some err" "created' = c1" "w' = w1" by simp_all
    from n1(4) show ?thesis
    proof
      assume "n1 = []"
      with res n1 show ?thesis by (intro exI [of _ "[]"] exI [of _ 0]) simp
    next
      assume "markdown_file e \<and> map fst n1 = [outputPath (entry_path e)]"
      with res n1 show ?thesis by (intro exI [of _ n1] exI [of _ "Suc 0"]) simp
    qed
  qed
qed

lemma sample_build:
  "fst (buildPages (fs_env sample_tree) sample_tree sample_fs) = None"
  "fs_files (snd (snd (buildPages (fs_env sample_tree) sample_tree sample_fs)))
     = [(''content/about.md'', ''see [home](index.md)''), (''content/index.md'', ''# Home''),
        (''content/logo.png'', ''PNG''), (''content/sub/index.md'', ''# Sub''),
        (''content/sub/page.md'', ''# Page''),
        (''build/about.html'', ''<h1>about</h1><p>see [home](index.html)</p>''),
        (''build/index.html'', ''<h1>index</h1><p># Home</p>''),
        (''build/sub/index.html'', ''<h1>index</h1><p># Sub</p>''),
        (''build/sub/page.html'', ''<h1>page</h1><p># Page</p>'')]"
  by code_simp+

text \<open>
  C1, as stated, fails where the output path of one markdown file is needed as a
  directory for another: with \<^verbatim>\<open>content/x.html/y.md\<close> beside \<^verbatim>\<open>content/x.md\<close> the build
  makes the directory \<^verbatim>\<open>build/x.html\<close> for the first, \<^verbatim>\<open>os.Create\<close> then fails on
  \<^verbatim>\<open>build/x.html\<close> for the second, the build stops, and \<^verbatim>\<open>content/x.md\<close> has no output
  file.
\<close>

theorem buildPages_collision_counterexample:
  "markdown_file \<lparr>entry_path = ''content/x.md'', entry_is_dir = False, entry_err = None\<rparr> \<and>
   \<lparr>entry_path = ''content/x.md'', entry_is_dir = False, entry_err = None\<rparr> \<in> set collision_tree \<and>
   outputPath ''content/x.md'' = ''build/x.html'' \<and>
   fst (buildPages (fs_env collision_tree) collision_tree collision_fs) = Some (Os_error ErrIsDirectory) \<and>
   ''build/x.html'' \<notin> regular_files (snd (snd (buildPages (fs_env collision_tree) collision_tree collision_fs))) \<and>
   regular_files (snd (snd (buildPages (fs_env collision_tree) collision_tree collision_fs)))
     = regular_files collision_fs \<union> {''build/x.html/y.html''}"
proof -
  have "fs_files (snd (snd (buildPages (fs_env collision_tree) collision_tree collision_fs)))
      = [(''content/x.html/y.md'', ''# Y''), (''content/x.md'', ''# X''),
         (''build/x.html/y.html'', ''<h1>y</h1><p># Y</p>'')]"
    by code_simp
  moreover have "fst (buildPages (fs_env collision_tree) collision_tree collision_fs)
      = Some (Os_error ErrIsDirectory)"
    by code_simp
  moreover have "outputPath ''content/x.md'' = ''build/x.html''"
    by code_simp
  ultimately show ?thesis
    by (simp add: regular_files_def collision_fs_def collision_tree_def markdown_file_def
        strings_HasSuffix_def) auto
qed

text \<open>
  C1, amended. In a build that returns no error, the regular files that exist afterwards
  are those that existed before and, for every markdown file under the content root, its
  output path, which \<^verbatim>\<open>os.Create\<close> made once: the files created are, in the order of the
  walk, the output paths of the markdown files, one for each. A build that stops at an
  error has created them for the first markdown files of the walk only, never two for
  one file. The output path of the markdown file reached from the content root through
  the directories \<open>dirs\<close> and named \<open>stem\<close> with the suffix \<^verbatim>\<open>.md\<close> is the path reached from
  the build root through the same directories and named \<open>stem\<close> with the suffix \<^verbatim>\<open>.html\<close>;
  two such files with the same output path are the same file.
\<close>

theorem buildPages_one_output_per_markdown_file:
  assumes "tracks_files env files_of"
    and "buildPages env entries w = (result, created, w')"
  shows "(result = None \<longrightarrow>
            files_of w' = files_of w \<union>
              set (map (\<lambda>e. outputPath (entry_path e)) (filter markdown_file entries)) \<and>
            map fst created = map (\<lambda>e. outputPath (entry_path e)) (filter markdown_file entries)) \<and>
         files_of w' = files_of w \<union> set (map fst created) \<and>
         (\<exists>k. map fst created
            = take k (map (\<lambda>e. outputPath (entry_path e)) (filter markdown_file entries))) \<and>
         (\<forall>dirs stem. list_all file_name dirs \<and> CHR ''/'' \<notin> set stem \<longrightarrow>
            outputPath (strings_Join (ContentPath # dirs @ [stem @ ''.md'']) ''/'')
              = strings_Join (BuildPath # dirs @ [stem @ ''.html'']) ''/'') \<and>
         (\<forall>dirs stem dirs' stem'.
            list_all file_name dirs \<and> CHR ''/'' \<notin> set stem \<and>
            list_all file_name dirs' \<and> CHR ''/'' \<notin> set stem' \<and>
            outputPath (strings_Join (ContentPath # dirs @ [stem @ ''.md'']) ''/'')
              = outputPath (strings_Join (ContentPath # dirs' @ [stem' @ ''.md'']) ''/'') \<longrightarrow>
            dirs = dirs' \<and> stem = stem')"
proof -
  let ?outs = "map (\<lambda>e. outputPath (entry_path e)) (filter markdown_file entries)"
  from assms(2) have "build_walk env entries [] w = (result, created, w')"
    by (simp add: buildPages_def)
  from build_walk_files [OF assms(1) this] obtain new k where
    walk: "created = [] @ new \<and> files_of w' = files_of w \<union> set (map fst new) \<and>
       map fst new = take k ?outs \<and> (result = None \<longrightarrow> length (filter markdown_file entries) \<le> k)"
    by (elim exE)
  note walk_files = walk [THEN conjunct2, THEN conjunct1]
    and walk_outs = walk [THEN conjunct2, THEN conjunct2, THEN conjunct1]
    and all = walk [THEN conjunct2, THEN conjunct2, THEN conjunct2]
  from walk have eq: "created = new" by simp
  have files: "files_of w' = files_of w \<union> set (map fst created)"
    unfolding eq by (rule walk_files)
  have k: "map fst created = take k ?outs"
    unfolding eq by (rule walk_outs)
  from k all have "result = None \<longrightarrow> map fst created = ?outs" by simp
  with files have "result = None \<longrightarrow> files_of w' = files_of w \<union> set ?outs \<and> map fst created = ?outs"
    by metis
  moreover note files
  moreover from k have "\<exists>k. map fst created = take k ?outs" ..
  moreover have "\<forall>dirs stem. list_all file_name dirs \<and> CHR ''/'' \<notin> set stem \<longrightarrow>
      outputPath (strings_Join (ContentPath # dirs @ [stem @ ''.md'']) ''/'')
        = strings_Join (BuildPath # dirs @ [stem @ ''.html'']) ''/''"
    using outputPath_mirror by blast
  moreover have "\<forall>dirs stem dirs' stem'.
      list_all file_name dirs \<and> CHR ''/'' \<notin> set stem \<and>
      list_all file_name dirs' \<and> CHR ''/'' \<notin> set stem' \<and>
      outputPath (strings_Join (ContentPath # dirs @ [stem @ ''.md'']) ''/'')
        = outputPath (strings_Join (ContentPath # dirs' @ [stem' @ ''.md'']) ''/'') \<longrightarrow>
      dirs = dirs' \<and> stem = stem'"
    using outputPath_inject by blast
  ultimately show ?thesis by (intro conjI)
qed

theorem buildPages_one_output_per_markdown_file_witness:
  "tracks_files (fs_env sample_tree) regular_files \<and>
   fst (buildPages (fs_env sample_tree) sample_tree sample_fs) = None \<and>
   map entry_path (filter markdown_file sample_tree)
     = [''content/about.md'', ''content/index.md'', ''content/sub/index.md'', ''content/sub/page.md''] \<and>
   regular_files (snd (snd (buildPages (fs_env sample_tree) sample_tree sample_fs)))
     = regular_files sample_fs \<union>
       {''build/about.html'', ''build/index.html'', ''build/sub/index.html'', ''build/sub/page.html''} \<and>
   map_of (fs_files (snd (snd (buildPages (fs_env sample_tree) sample_tree sample_fs)))) ''build/about.html''
     = Some ''<h1>about</h1><p>see [home](index.html)</p>'' \<and>
   list_all file_name [''sub''] \<and> CHR ''/'' \<notin> set ''page'' \<and>
   outputPath (strings_Join (ContentPath # [''sub''] @ [''page'' @ ''.md'']) ''/'') = ''build/sub/page.html''"
proof -
  obtain result created w' where
    run: "buildPages (fs_env sample_tree) sample_tree sample_fs = (result, created, w')"
    by (cases "buildPages (fs_env sample_tree) sample_tree sample_fs") auto
  with sample_build have ok: "result = None" and final: "fs_files w'
      = [(''content/about.md'', ''see [home](index.md)''), (''content/index.md'', ''# Home''),
         (''content/logo.png'', ''PNG''), (''content/sub/index.md'', ''# Sub''),
         (''content/sub/page.md'', ''# Page''),
         (''build/about.html'', ''<h1>about</h1><p>see [home](index.html)</p>''),
         (''build/index.html'', ''<h1>index</h1><p># Home</p>''),
         (''build/sub/index.html'', ''<h1>index</h1><p># Sub</p>''),
         (''build/sub/page.html'', ''<h1>page</h1><p># Page</p>'')]"
    by simp_all
  have files: "map entry_path (filter markdown_file sample_tree)
      = [''content/about.md'', ''content/index.md'', ''content/sub/index.md'', ''content/sub/page.md'']"
    by (simp add: sample_tree_def markdown_file_def strings_HasSuffix_def)
  have outs: "map (\<lambda>e. outputPath (entry_path e)) (filter markdown_file sample_tree)
      = [''build/about.html'', ''build/index.html'', ''build/sub/index.html'', ''build/sub/page.html'']"
    by code_simp
  have names: "list_all file_name [''sub''] \<and> CHR ''/'' \<notin> set ''page''"
    by (simp add: file_name_def)
  note inst = buildPages_one_output_per_markdown_file [OF fs_env_tracks_files run]
  from inst ok have "regular_files w' = regular_files sample_fs \<union>
      set (map (\<lambda>e. outputPath (entry_path e)) (filter markdown_file sample_tree))"
    by blast
  then have after: "regular_files w' = regular_files sample_fs \<union>
      {''build/about.html'', ''build/index.html'', ''build/sub/index.html'', ''build/sub/page.html''}"
    by (simp add: outs)
  from inst names
  have "outputPath (strings_Join (ContentPath # [''sub''] @ [''page'' @ ''.md'']) ''/'')
      = strings_Join (BuildPath # [''sub''] @ [''page'' @ ''.html'']) ''/''"
    by blast
  then have mirror: "outputPath (strings_Join (ContentPath # [''sub''] @ [''page'' @ ''.md'']) ''/'')
      = ''build/sub/page.html''"
    by (simp add: BuildPath_def)
  from run ok after final files names mirror fs_env_tracks_files [of sample_tree] show ?thesis
    by simp
qed

section \<open>Properties of the sidebar\<close>

text \<open>
  The walk stops at the first entry passed with an error; of the entries before it, a
  file is listed when it is no directory, its path does not contain the name of the root
  page, and its path ends in \<^verbatim>\<open>.md\<close>.
\<close>

definition listed :: "walk_entry \<Rightarrow> bool" where
  "listed e = (\<not> entry_is_dir e \<and> \<not> strings_Contains (entry_path e) RootPage \<and>
     strings_HasSuffix (entry_path e) ''.md'')"

text \<open>The item the callback appends for a listed path.\<close>

definition sidebar_item :: "string \<Rightarrow> string \<Rightarrow> string \<Rightarrow> NavItem" where
  "sidebar_item root currentPath path =
     (let relRoot = value_of (filepath_Rel (filepath_Dir currentPath) root);
          rel = value_of (filepath_Rel root path);
          link = strings_TrimSuffix (if relRoot = ''.'' then rel else filepath_Join [relRoot, rel]) ''.md''
      in \<lparr>Title = filepath_Base link, Link = link @ ''.html''\<rparr>)"

lemma sidebar_visit_cases:
  "sidebar_visit root currentPath e items =
     (if entry_err e \<noteq> None then (entry_err e, items)
      else if listed e then (None, items @ [sidebar_item root currentPath (entry_path e)])
      else (None, items))"
  by (auto simp: sidebar_visit_def listed_def sidebar_item_def Let_def)

lemma sidebar_walk_items:
  "sidebar_walk root currentPath entries items =
     items @ map (\<lambda>e. sidebar_item root currentPath (entry_path e))
               (filter listed (takeWhile (\<lambda>e. entry_err e = None) entries))"
  by (induction entries arbitrary: items) (auto simp: sidebar_visit_cases)

lemma generateSidebar_items:
  "generateSidebar root currentPath entries =
     map (\<lambda>e. sidebar_item root currentPath (entry_path e))
       (filter listed (takeWhile (\<lambda>e. entry_err e = None) entries))"
  by (simp add: generateSidebar_def sidebar_walk_items)

lemma sample_sidebar_nested:
  "generateSidebar ContentPath ''content/sub/page.md'' sample_tree
     = [\<lparr>Title = ''about'', Link = ''../about.html''\<rparr>, \<lparr>Title = ''page'', Link = ''../sub/page.html''\<rparr>]"
  by code_simp

lemma sample_sidebar_top:
  "generateSidebar ContentPath ''content/about.md'' sample_tree
     = [\<lparr>Title = ''about'', Link = ''about.html''\<rparr>, \<lparr>Title = ''page'', Link = ''sub/page.html''\<rparr>]"
  by code_simp

text \<open>
  The link of C2 as the specification words it, \<^verbatim>\<open>relRoot\<close> being the path of the current
  page's directory relative to the content root.
\<close>

definition claimed_sidebar_link :: "string \<Rightarrow> string \<Rightarrow> string \<Rightarrow> string" where
  "claimed_sidebar_link root currentPath path =
     (let relRoot = value_of (filepath_Rel root (filepath_Dir currentPath));
          rel = value_of (filepath_Rel root path);
          link = (if relRoot = ''.'' then rel else filepath_Join [relRoot, rel])
      in strings_TrimSuffix link ''.md'' @ ''.html'')"

text \<open>
  C2, as stated, fails for a page in a subdirectory: on the page \<^verbatim>\<open>content/sub/page.md\<close>
  the entry for \<^verbatim>\<open>content/about.md\<close> links to \<^verbatim>\<open>../about.html\<close>, where the claim gives
  \<^verbatim>\<open>sub/about.html\<close>.
\<close>

theorem generateSidebar_nested_counterexample:
  "generateSidebar ContentPath ''content/sub/page.md''
       [\<lparr>entry_path = ''content/about.md'', entry_is_dir = False, entry_err = None\<rparr>]
     = [\<lparr>Title = ''about'', Link = ''../about.html''\<rparr>] \<and>
   claimed_sidebar_link ContentPath ''content/sub/page.md'' ''content/about.md'' = ''sub/about.html''"
  by code_simp

text \<open>
  C2, amended. The sidebar has one entry for every listed file of the walk, in its order.
  With \<^verbatim>\<open>relRoot\<close> the path of the content root relative to the directory of the current
  page, and \<^verbatim>\<open>rel\<close> the path of the file relative to the content root, the link is \<^verbatim>\<open>rel\<close>
  when \<^verbatim>\<open>relRoot\<close> is \<^verbatim>\<open>.\<close> and \<^verbatim>\<open>relRoot\<close> joined with \<^verbatim>\<open>rel\<close> otherwise, with the suffix
  \<^verbatim>\<open>.md\<close> stripped and \<^verbatim>\<open>.html\<close> appended; the title is the last element of the link
  after stripping and before appending.
\<close>

theorem generateSidebar_links:
  "generateSidebar root currentPath entries =
     map (\<lambda>e.
            let relRoot = value_of (filepath_Rel (filepath_Dir currentPath) root);
                rel = value_of (filepath_Rel root (entry_path e));
                link = strings_TrimSuffix
                         (if relRoot = ''.'' then rel else filepath_Join [relRoot, rel]) ''.md''
            in \<lparr>Title = filepath_Base link, Link = link @ ''.html''\<rparr>)
       (filter (\<lambda>e. \<not> entry_is_dir e \<and> \<not> strings_Contains (entry_path e) RootPage \<and>
                  strings_HasSuffix (entry_path e) ''.md'')
          (takeWhile (\<lambda>e. entry_err e = None) entries))"
proof -
  have "listed = (\<lambda>e. \<not> entry_is_dir e \<and> \<not> strings_Contains (entry_path e) RootPage \<and>
      strings_HasSuffix (entry_path e) ''.md'')"
    by (rule ext) (simp add: listed_def)
  then show ?thesis
    by (simp add: generateSidebar_items sidebar_item_def)
qed

theorem generateSidebar_links_witness:
  "value_of (filepath_Rel (filepath_Dir ''content/sub/page.md'') ContentPath) = ''..'' \<and>
   value_of (filepath_Rel ContentPath ''content/about.md'') = ''about.md'' \<and>
   generateSidebar ContentPath ''content/sub/page.md'' sample_tree
     = [\<lparr>Title = ''about'', Link = ''../about.html''\<rparr>, \<lparr>Title = ''page'', Link = ''../sub/page.html''\<rparr>] \<and>
   value_of (filepath_Rel (filepath_Dir ''content/about.md'') ContentPath) = ''.'' \<and>
   generateSidebar ContentPath ''content/about.md'' sample_tree
     = [\<lparr>Title = ''about'', Link = ''about.html''\<rparr>, \<lparr>Title = ''page'', Link = ''sub/page.html''\<rparr>]"
proof -
  have "value_of (filepath_Rel (filepath_Dir ''content/sub/page.md'') ContentPath) = ''..''"
    and "value_of (filepath_Rel ContentPath ''content/about.md'') = ''about.md''"
    and "value_of (filepath_Rel (filepath_Dir ''content/about.md'') ContentPath) = ''.''"
    by code_simp+
  then show ?thesis
    using generateSidebar_links [of ContentPath "''content/sub/page.md''" sample_tree]
      sample_sidebar_nested sample_sidebar_top
    by simp
qed

lemma strings_Contains_append: "strings_Contains (a @ s @ b) s"
  unfolding strings_Contains_def
proof (induction a)
  case Nil
  have "strings_HasPrefix (s @ b) s" by (simp add: strings_HasPrefix_def)
  then show ?case by (cases "s @ b") auto
next
  case (Cons c a)
  then show ?case by auto
qed

text \<open>
  C3. A file whose path contains the name of the root page yields no sidebar entry,
  wherever it lies: the visit of such a file leaves the items as they are, and the
  sidebar of a walk is the one of the walk without that file (of the walk up to that
  entry, when it was passed with an error). The path of the root page of any directory
  below the root, at any depth, contains that name, so it is never listed.
\<close>

theorem generateSidebar_excludes_root_page:
  "(strings_Contains (entry_path e) RootPage \<longrightarrow>
      snd (sidebar_visit root currentPath e items) = items \<and>
      generateSidebar root currentPath (before @ e # after)
        = generateSidebar root currentPath (before @ (if entry_err e = None then after else []))) \<and>
   strings_Contains (strings_Join (root # dirs @ [RootPage @ ''.md'']) ''/'') RootPage"
proof
  show "strings_Contains (entry_path e) RootPage \<longrightarrow>
      snd (sidebar_visit root currentPath e items) = items \<and>
      generateSidebar root currentPath (before @ e # after)
        = generateSidebar root currentPath (before @ (if entry_err e = None then after else []))"
  proof
    assume "strings_Contains (entry_path e) RootPage"
    then have "\<not> listed e" by (simp add: listed_def)
    then show "snd (sidebar_visit root currentPath e items) = items \<and>
      generateSidebar root currentPath (before @ e # after)
        = generateSidebar root currentPath (before @ (if entry_err e = None then after else []))"
      by (simp add: sidebar_visit_cases generateSidebar_items takeWhile_append)
  qed
next
  have "strings_Join ((root # dirs) @ [RootPage @ ''.md'']) ''/''
      = (strings_Join (root # dirs) ''/'' @ ''/'') @ RootPage @ ''.md''"
    by (simp only: strings_Join_snoc list.simps if_False append_assoc)
  then have "strings_Contains (strings_Join ((root # dirs) @ [RootPage @ ''.md'']) ''/'') RootPage"
    by (simp only: strings_Contains_append)
  then show "strings_Contains (strings_Join (root # dirs @ [RootPage @ ''.md'']) ''/'') RootPage"
    by simp
qed

theorem generateSidebar_excludes_root_page_witness:
  "strings_Contains ''content/sub/index.md'' RootPage \<and>
   generateSidebar ContentPath ''content/about.md''
       ([\<lparr>entry_path = ''content/about.md'', entry_is_dir = False, entry_err = None\<rparr>]
        @ \<lparr>entry_path = ''content/sub/index.md'', entry_is_dir = False, entry_err = None\<rparr>
        # [\<lparr>entry_path = ''content/sub/page.md'', entry_is_dir = False, entry_err = None\<rparr>])
     = [\<lparr>Title = ''about'', Link = ''about.html''\<rparr>, \<lparr>Title = ''page'', Link = ''sub/page.html''\<rparr>]"
proof -
  have contains: "strings_Contains ''content/sub/index.md'' RootPage"
    by code_simp
  have rest: "generateSidebar ContentPath ''content/about.md''
       ([\<lparr>entry_path = ''content/about.md'', entry_is_dir = False, entry_err = None\<rparr>]
        @ [\<lparr>entry_path = ''content/sub/page.md'', entry_is_dir = False, entry_err = None\<rparr>])
     = [\<lparr>Title = ''about'', Link = ''about.html''\<rparr>, \<lparr>Title = ''page'', Link = ''sub/page.html''\<rparr>]"
    by code_simp
  show ?thesis
    using contains rest
      generateSidebar_excludes_root_page [of
        "\<lparr>entry_path = ''content/sub/index.md'', entry_is_dir = False, entry_err = None\<rparr>"
        ContentPath "''content/about.md''" "[]"
        "[\<lparr>entry_path = ''content/about.md'', entry_is_dir = False, entry_err = None\<rparr>]"
        "[\<lparr>entry_path = ''content/sub/page.md'', entry_is_dir = False, entry_err = None\<rparr>]"
        "[''sub'']"]
    by simp
qed

end
